theory Spec2Isabelle
  imports Main "HOL-Library.AList" "HOL-Library.Sublist" "HOL-Library.Char_ord" "HOL-Library.List_Lexorder"
begin

section \<open>Python values and library primitives\<close>

text \<open>
  A Python \<open>bytes\<close> value is a list of 8-bit characters. A Python \<open>str\<close> is modelled the
  same way, one \<open>char\<close> per code point below 256. Exceptions are values of \<open>error\<close>: the
  exception class, with the message where the source formats one. A function that can
  raise returns \<open>error + 'a\<close>; a function whose loop or recursion may run forever returns
  an \<open>option\<close> on top, where \<open>None\<close> means that the call does not return.
\<close>

type_synonym bytes = "char list"

datatype error =
    AssertionError string
  | ValueError string
  | OverflowError
  | IndexError
  | KeyError
  | TypeError
  | UnicodeDecodeError
  | FileNotFoundError
  | ZlibError
  | StructError
  | IsADirectoryError
  | NotADirectoryError
  | Exception string

abbreviation NUL :: char where "NUL \<equiv> CHR 0x00"
abbreviation SPC :: char where "SPC \<equiv> CHR 0x20"
abbreviation NL :: char where "NL \<equiv> CHR 0x0A"

subsection \<open>Indexing, slicing and searching\<close>

definition clamp_index :: "nat \<Rightarrow> int \<Rightarrow> nat" where
  \<comment> \<open>a slice bound: a negative bound counts from the end, and both ends are clipped\<close>
  "clamp_index n i = (if i < 0 then nat (int n + i) else min (nat i) n)"

definition slice :: "'a list \<Rightarrow> int \<Rightarrow> int \<Rightarrow> 'a list" where
  \<comment> \<open>\<open>xs[i:j]\<close>\<close>
  "slice xs i j =
     (let a = clamp_index (length xs) i; b = clamp_index (length xs) j
      in take (b - a) (drop a xs))"

definition slice_from :: "'a list \<Rightarrow> int \<Rightarrow> 'a list" where
  \<comment> \<open>\<open>xs[i:]\<close>\<close>
  "slice_from xs i = drop (clamp_index (length xs) i) xs"

definition slice_to :: "'a list \<Rightarrow> int \<Rightarrow> 'a list" where
  \<comment> \<open>\<open>xs[:j]\<close>\<close>
  "slice_to xs j = take (clamp_index (length xs) j) xs"

definition getitem :: "'a list \<Rightarrow> int \<Rightarrow> error + 'a" where
  \<comment> \<open>\<open>xs[i]\<close>\<close>
  "getitem xs i =
     (if - int (length xs) \<le> i \<and> i < int (length xs)
      then Inr (xs ! nat (if i < 0 then int (length xs) + i else i))
      else Inl IndexError)"

fun index_of :: "'a \<Rightarrow> 'a list \<Rightarrow> nat option" where
  "index_of c [] = None"
| "index_of c (x # xs) = (if x = c then Some 0 else map_option Suc (index_of c xs))"

definition bytes_find :: "bytes \<Rightarrow> char \<Rightarrow> int \<Rightarrow> int" where
  \<comment> \<open>\<open>raw.find(bytes([c]), start)\<close>: the first index at or after \<open>start\<close>, or \<open>-1\<close>\<close>
  "bytes_find raw c start =
     (let s = clamp_index (length raw) start
      in case index_of c (drop s raw) of None \<Rightarrow> - 1 | Some k \<Rightarrow> int (s + k))"

definition bytes_index :: "bytes \<Rightarrow> char \<Rightarrow> int \<Rightarrow> error + int" where
  \<comment> \<open>\<open>raw.index(bytes([c]), start)\<close>: as \<open>find\<close>, but raises when there is none\<close>
  "bytes_index raw c start =
     (let k = bytes_find raw c start
      in if k < 0 then Inl (ValueError ''subsection not found'') else Inr k)"

subsection \<open>Numbers and their text\<close>

definition digit_char :: "nat \<Rightarrow> char" where
  "digit_char d = ''0123456789abcdef'' ! d"

fun str_nat :: "nat \<Rightarrow> string" where
  \<comment> \<open>\<open>str(n)\<close> of a non-negative integer\<close>
  "str_nat n = (if n < 10 then [digit_char n] else str_nat (n div 10) @ [digit_char (n mod 10)])"

fun hex_nat :: "nat \<Rightarrow> string" where
  \<comment> \<open>\<open>hex(n)[2:]\<close> of a non-negative integer: lowercase, no leading zero\<close>
  "hex_nat n = (if n < 16 then [digit_char n] else hex_nat (n div 16) @ [digit_char (n mod 16)])"

declare str_nat.simps [simp del] hex_nat.simps [simp del]

definition from_bytes_big :: "bytes \<Rightarrow> nat" where
  \<comment> \<open>\<open>int.from_bytes(bs, "big")\<close>\<close>
  "from_bytes_big bs = foldl (\<lambda>acc b. acc * 256 + of_char b) 0 bs"

definition to_bytes_big :: "nat \<Rightarrow> int \<Rightarrow> error + bytes" where
  \<comment> \<open>\<open>n.to_bytes(len, byteorder="big")\<close>: raises on a negative or too large \<open>n\<close>\<close>
  "to_bytes_big len n =
     (if n < 0 \<or> n \<ge> 256 ^ len then Inl OverflowError
      else Inr (map (\<lambda>i. char_of (nat n div 256 ^ (len - 1 - i))) [0..<len]))"

definition isspace :: "char \<Rightarrow> bool" where
  \<comment> \<open>the whitespace of \<open>str.split()\<close>, \<open>str.strip()\<close> and \<open>int()\<close>, below code point 256\<close>
  "isspace c = (c \<in> set [CHR 0x09, CHR 0x0A, CHR 0x0B, CHR 0x0C, CHR 0x0D,
                           CHR 0x1C, CHR 0x1D, CHR 0x1E, CHR 0x1F, CHR 0x20,
                           CHR 0x85, CHR 0xA0])"

definition digit_of :: "char \<Rightarrow> nat option" where
  "digit_of c =
     (let k = (of_char c :: nat)
      in if 48 \<le> k \<and> k \<le> 57 then Some (k - 48)
         else if 97 \<le> k \<and> k \<le> 122 then Some (k - 87)
         else if 65 \<le> k \<and> k \<le> 90 then Some (k - 55)
         else None)"

fun int_digits :: "nat \<Rightarrow> bool \<Rightarrow> nat \<Rightarrow> string \<Rightarrow> nat option" where
  \<comment> \<open>digits of base \<open>b\<close>, single underscores allowed between two digits\<close>
  "int_digits b prev acc [] = (if prev then Some acc else None)"
| "int_digits b prev acc (c # cs) =
     (if c = CHR ''_'' then (if prev then int_digits b False acc cs else None)
      else case digit_of c of
             None \<Rightarrow> None
           | Some d \<Rightarrow> if d < b then int_digits b True (acc * b + d) cs else None)"

definition strip :: "string \<Rightarrow> string" where
  "strip s = rev (dropWhile isspace (rev (dropWhile isspace s)))"

definition py_int :: "nat \<Rightarrow> string \<Rightarrow> int option" where
  \<comment> \<open>\<open>int(s, b)\<close> for \<open>b\<close> 10 or 16: surrounding whitespace, a sign, for base 16 an
      optional \<open>0x\<close>, then digits; \<open>None\<close> stands for the ValueError\<close>
  "py_int b s =
     (let t = strip s;
          neg = (take 1 t = ''-'');
          u = (if take 1 t = ''-'' \<or> take 1 t = ''+'' then drop 1 t else t);
          v = (if b = 16 \<and> (take 2 u = ''0x'' \<or> take 2 u = ''0X'')
               then (let w = drop 2 u in if take 1 w = ''_'' then drop 1 w else w)
               else u)
      in map_option (\<lambda>n. if neg then - int n else int n) (int_digits b False 0 v))"

section \<open>Tree objects (libwyag)\<close>

record GitTreeLeaf =
  mode :: bytes
  path :: bytes
  sha :: string

definition tree_parse_one :: "bytes \<Rightarrow> int \<Rightarrow> error + (int \<times> GitTreeLeaf)" where
  "tree_parse_one raw start =
     (let x = bytes_find raw SPC start
      in if \<not> (x - start = 5 \<or> x - start = 6) then Inl (AssertionError [])
         else let m = slice raw start x;
                  y = bytes_find raw NUL x;
                  p = slice raw (x + 1) y;
                  s = hex_nat (from_bytes_big (slice raw (y + 1) (y + 21)))
              in Inr (y + 21, \<lparr>mode = m, path = p, sha = s\<rparr>))"

partial_function (option) tree_parse_loop ::
  "bytes \<Rightarrow> int \<Rightarrow> GitTreeLeaf list \<Rightarrow> (error + GitTreeLeaf list) option" where
  "tree_parse_loop raw pos ret =
     (if pos < int (length raw)
      then (case tree_parse_one raw pos of
              Inl e \<Rightarrow> Some (Inl e)
            | Inr (pos', data) \<Rightarrow> tree_parse_loop raw pos' (ret @ [data]))
      else Some (Inr ret))"

definition tree_parse :: "bytes \<Rightarrow> (error + GitTreeLeaf list) option" where
  "tree_parse raw = tree_parse_loop raw 0 []"

fun tree_serialize_items :: "bytes \<Rightarrow> GitTreeLeaf list \<Rightarrow> error + bytes" where
  "tree_serialize_items ret [] = Inr ret"
| "tree_serialize_items ret (i # items) =
     (case py_int 16 (sha i) of
        None \<Rightarrow> Inl (ValueError ''invalid literal for int() with base 16'')
      | Some n \<Rightarrow>
          (case to_bytes_big 20 n of
             Inl e \<Rightarrow> Inl e
           | Inr d \<Rightarrow> tree_serialize_items (ret @ mode i @ [SPC] @ path i @ [NUL] @ d) items))"

definition tree_serialize :: "GitTreeLeaf list \<Rightarrow> error + bytes" where
  "tree_serialize items = tree_serialize_items [] items"

section \<open>Key-value lists with message (libwyag)\<close>

text \<open>
  The parser builds an \<open>OrderedDict\<close> whose values are a byte string or, for a repeated
  key, a list of byte strings. The dictionary is an association list in insertion order:
  \<open>kvlm_set\<close> is the assignment \<open>dct[key] = v\<close>, which keeps the position of a key
  that is present and appends a new one.
\<close>

datatype kvlm_val = Single bytes | Multi "bytes list"

type_synonym kvlm = "(bytes \<times> kvlm_val) list"

fun kvlm_set :: "bytes \<Rightarrow> kvlm_val \<Rightarrow> kvlm \<Rightarrow> kvlm" where
  "kvlm_set k v [] = [(k, v)]"
| "kvlm_set k v ((k', v') # d) = (if k' = k then (k, v) # d else (k', v') # kvlm_set k v d)"

fun replace_nl_sp :: "bytes \<Rightarrow> bytes" where
  \<comment> \<open>\<open>v.replace(b"\n ", b"\n")\<close>\<close>
  "replace_nl_sp (a # b # cs) =
     (if a = NL \<and> b = SPC then NL # replace_nl_sp cs else a # replace_nl_sp (b # cs))"
| "replace_nl_sp cs = cs"

fun replace_nl :: "bytes \<Rightarrow> bytes" where
  \<comment> \<open>\<open>v.replace(b"\n", b"\n ")\<close>\<close>
  "replace_nl [] = []"
| "replace_nl (c # cs) = (if c = NL then NL # SPC # replace_nl cs else c # replace_nl cs)"

partial_function (option) value_end :: "bytes \<Rightarrow> int \<Rightarrow> (error + int) option" where
  \<comment> \<open>the \<open>while True\<close> loop of \<open>kvlm_parse\<close>: the next newline that no space follows\<close>
  "value_end raw e0 =
     (let e = bytes_find raw NL (e0 + 1)
      in case getitem raw (e + 1) of
           Inl err \<Rightarrow> Some (Inl err)
         | Inr c \<Rightarrow> if c \<noteq> SPC then Some (Inr e) else value_end raw e)"

partial_function (option) kvlm_parse :: "bytes \<Rightarrow> int \<Rightarrow> kvlm \<Rightarrow> (error + kvlm) option" where
  "kvlm_parse raw start dct =
     (let spc = bytes_find raw SPC start;
          nl = bytes_find raw NL start
      in if spc < 0 \<or> nl < spc
         then (if nl \<noteq> start then Some (Inl (AssertionError []))
               else Some (Inr (kvlm_set [] (Single (slice_from raw (start + 1))) dct)))
         else (let key = slice raw start spc
               in case value_end raw start of
                    None \<Rightarrow> None
                  | Some (Inl err) \<Rightarrow> Some (Inl err)
                  | Some (Inr e) \<Rightarrow>
                      (let v = replace_nl_sp (slice raw (spc + 1) e);
                           dct' = (case map_of dct key of
                                     Some (Multi vs) \<Rightarrow> kvlm_set key (Multi (vs @ [v])) dct
                                   | Some (Single u) \<Rightarrow> kvlm_set key (Multi [u, v]) dct
                                   | None \<Rightarrow> kvlm_set key (Single v) dct)
                       in kvlm_parse raw (e + 1) dct')))"

fun kvlm_serialize_values :: "bytes \<Rightarrow> bytes \<Rightarrow> bytes list \<Rightarrow> bytes" where
  \<comment> \<open>the inner loop \<open>for v in val\<close>\<close>
  "kvlm_serialize_values ret k [] = ret"
| "kvlm_serialize_values ret k (v # vs) =
     kvlm_serialize_values (ret @ k @ [SPC] @ replace_nl v @ [NL]) k vs"

fun kvlm_serialize_fields :: "bytes \<Rightarrow> kvlm \<Rightarrow> bytes" where
  \<comment> \<open>the outer loop \<open>for k, val in kvlm.items()\<close>\<close>
  "kvlm_serialize_fields ret [] = ret"
| "kvlm_serialize_fields ret ((k, val) # items) =
     (if k = [] then kvlm_serialize_fields ret items
      else kvlm_serialize_fields
             (kvlm_serialize_values ret k (case val of Single v \<Rightarrow> [v] | Multi vs \<Rightarrow> vs))
             items)"

definition kvlm_serialize :: "kvlm \<Rightarrow> error + bytes" where
  "kvlm_serialize d =
     (let ret = kvlm_serialize_fields [] d
      in case map_of d [] of
           None \<Rightarrow> Inl KeyError
         | Some (Single m) \<Rightarrow> Inr (ret @ [NL] @ m)
         | Some (Multi ms) \<Rightarrow> Inl TypeError)"

section \<open>References (libwyag)\<close>

text \<open>
  The files under the git directory, as far as \<open>ref_resolve\<close> reads them: a map from the
  name of a reference to the text of its file. A name with no file raises
  \<open>FileNotFoundError\<close>. The recursion has no bound, so the function is partial:
  \<open>None\<close> is a call that never returns.
\<close>

partial_function (option) ref_resolve :: "(string \<rightharpoonup> string) \<Rightarrow> string \<Rightarrow> (error + string) option" where
  "ref_resolve files ref =
     (case files ref of
        None \<Rightarrow> Some (Inl FileNotFoundError)
      | Some text \<Rightarrow>
          (let data = slice_to text (- 1)
           in if prefix ''ref: '' data then ref_resolve files (slice_from data 5)
              else Some (Inr data)))"

definition ends_line :: "bytes \<Rightarrow> bool" where
  \<comment> \<open>empty, or ending with the newline of a line that is not blank\<close>
  "ends_line h = (h = [] \<or> (\<exists>l c. h = l @ [c, NL] \<and> c \<noteq> NL))"


subsection \<open>The canonical form of a key-value list\<close>







section \<open>Library functions and the object directory\<close>

text \<open>
  \<open>hashlib.sha1\<close> and \<open>zlib\<close> are not code of this repository: they are parameters of
  the model, collected in a record. A theorem that needs a property of them (what is
  compressed decompresses to itself, a digest has 20 bytes) states it as a hypothesis.

  The directory \<open>.git/objects\<close> is a list of subdirectories, each a list of files with
  their contents, in the order \<open>os.listdir\<close> gives them. \<open>written\<close> logs every file
  that was opened for writing, in order: it tells a file that was written again from one
  that was left alone. Entries of \<open>.git/objects\<close> that are not directories, and files
  that cannot be read, are outside the model.

  A \<open>str\<close> that is encoded or decoded is ASCII text, so encoding is the identity and
  decoding fails on a byte from 128 on. This is exact for \<open>decode("ascii")\<close>; for the
  UTF-8 of a plain \<open>decode()\<close> it reports every non-ASCII header as an error, and no
  theorem below rests on such an error.
\<close>

record library =
  hashlib_sha1 :: "bytes \<Rightarrow> bytes"
  zlib_compress :: "bytes \<Rightarrow> bytes"
  zlib_decompress :: "bytes \<Rightarrow> bytes option"

definition hex_bytes :: "bytes \<Rightarrow> string" where
  \<comment> \<open>\<open>bs.hex()\<close>\<close>
  "hex_bytes bs =
     concat (map (\<lambda>c. [digit_char (of_char c div 16), digit_char (of_char c mod 16)]) bs)"

definition hexdigest :: "library \<Rightarrow> bytes \<Rightarrow> string" where
  \<comment> \<open>\<open>hashlib.sha1(data).hexdigest()\<close>\<close>
  "hexdigest L data = hex_bytes (hashlib_sha1 L data)"

definition decode :: "bytes \<Rightarrow> error + string" where
  "decode bs = (if list_all (\<lambda>c. (of_char c :: nat) < 128) bs then Inr bs
                else Inl UnicodeDecodeError)"

definition str_int :: "int \<Rightarrow> string" where
  "str_int i = (if i < 0 then ''-'' @ str_nat (nat (- i)) else str_nat (nat i))"

fun split_words :: "string \<Rightarrow> string \<Rightarrow> string list" where
  \<comment> \<open>the word being read, and the text still to read\<close>
  "split_words w [] = (if w = [] then [] else [w])"
| "split_words w (c # cs) =
     (if isspace c then (if w = [] then split_words [] cs else w # split_words [] cs)
      else split_words (w @ [c]) cs)"

definition split :: "string \<Rightarrow> string list" where
  \<comment> \<open>\<open>s.split()\<close>: the words between runs of whitespace\<close>
  "split s = split_words [] s"

type_synonym directory = "(string \<times> bytes) list"

record store =
  dirs :: "(string \<times> directory) list"
  written :: "(string \<times> string) list"

definition path_exists :: "store \<Rightarrow> string \<Rightarrow> string \<Rightarrow> bool" where
  "path_exists S d n =
     (case map_of (dirs S) d of None \<Rightarrow> False | Some fs \<Rightarrow> map_of fs n \<noteq> None)"

definition read_file :: "store \<Rightarrow> string \<Rightarrow> string \<Rightarrow> error + bytes" where
  "read_file S d n =
     (case map_of (dirs S) d of
        None \<Rightarrow> Inl FileNotFoundError
      | Some fs \<Rightarrow> (case map_of fs n of None \<Rightarrow> Inl FileNotFoundError | Some z \<Rightarrow> Inr z))"

definition write_file :: "store \<Rightarrow> string \<Rightarrow> string \<Rightarrow> bytes \<Rightarrow> store" where
  \<comment> \<open>make the subdirectory if it is missing, then create or overwrite the file\<close>
  "write_file S d n z =
     S\<lparr>dirs := AList.update d
                  (AList.update n z (case map_of (dirs S) d of None \<Rightarrow> [] | Some fs \<Rightarrow> fs))
                  (dirs S),
       written := written S @ [(d, n)]\<rparr>"

section \<open>The object store of pygit\<close>

definition hash_object :: "library \<Rightarrow> store \<Rightarrow> bytes \<Rightarrow> string \<Rightarrow> bool \<Rightarrow> string \<times> store" where
  "hash_object L S data obj_type wr =
     (let header = obj_type @ '' '' @ str_nat (length data);
          full_data = header @ [NUL] @ data;
          sha1 = hexdigest L full_data
      in if wr
         then (if \<not> path_exists S (slice_to sha1 2) (slice_from sha1 2)
               then (sha1, write_file S (slice_to sha1 2) (slice_from sha1 2)
                             (zlib_compress L full_data))
               else (sha1, S))
         else (sha1, S))"

definition find_object :: "store \<Rightarrow> string \<Rightarrow> error + (string \<times> string)" where
  "find_object S sha1_prefix =
     (if length sha1_prefix < 2
      then Inl (ValueError ''hash prefix must be 2 or more characters'')
      else let obj_dir = slice_to sha1_prefix 2;
               rest = slice_from sha1_prefix 2
           in case map_of (dirs S) obj_dir of
                None \<Rightarrow> Inl FileNotFoundError
              | Some fs \<Rightarrow>
                  (let objects = filter (prefix rest) (map fst fs)
                   in if objects = []
                      then Inl (ValueError (''object '' @ sha1_prefix @ '' not found''))
                      else if length objects \<ge> 2
                      then Inl (ValueError (''multiple objects ('' @ str_nat (length objects)
                                             @ '') with prefix '' @ sha1_prefix))
                      else Inr (obj_dir, objects ! 0)))"

definition read_object :: "library \<Rightarrow> store \<Rightarrow> string \<Rightarrow> error + (string \<times> bytes)" where
  "read_object L S sha1_prefix =
     (case find_object S sha1_prefix of
        Inl e \<Rightarrow> Inl e
      | Inr (d, n) \<Rightarrow>
     (case read_file S d n of
        Inl e \<Rightarrow> Inl e
      | Inr z \<Rightarrow>
     (case zlib_decompress L z of
        None \<Rightarrow> Inl ZlibError
      | Some full_data \<Rightarrow>
     (case bytes_index full_data NUL 0 of
        Inl e \<Rightarrow> Inl e
      | Inr nul_index \<Rightarrow>
     (case decode (slice_to full_data nul_index) of
        Inl e \<Rightarrow> Inl e
      | Inr header \<Rightarrow>
     (case split header of
        [obj_type, size_str] \<Rightarrow>
          (case py_int 10 size_str of
             None \<Rightarrow> Inl (ValueError ''invalid literal for int() with base 10'')
           | Some sz \<Rightarrow>
               (let data = slice_from full_data (nul_index + 1)
                in if sz \<noteq> int (length data)
                   then Inl (ValueError (''expected size '' @ str_int sz @ '', but got ''
                                          @ str_nat (length data) @ '' bytes''))
                   else Inr (obj_type, data)))
      | _ \<Rightarrow> Inl (ValueError ''wrong number of values to unpack'')))))))"

section \<open>The object store of libwyag\<close>

datatype GitObject = GitBlob bytes | GitTree "GitTreeLeaf list" | GitCommit kvlm | GitTag kvlm

fun fmt :: "GitObject \<Rightarrow> bytes" where
  "fmt (GitBlob b) = ''blob''"
| "fmt (GitTree items) = ''tree''"
| "fmt (GitCommit k) = ''commit''"
| "fmt (GitTag k) = ''tag''"

fun serialize :: "GitObject \<Rightarrow> error + bytes" where
  "serialize (GitBlob blobdata) = Inr blobdata"
| "serialize (GitTree items) = tree_serialize items"
| "serialize (GitCommit k) = kvlm_serialize k"
| "serialize (GitTag k) = kvlm_serialize k"

definition object_write :: "library \<Rightarrow> store \<Rightarrow> GitObject \<Rightarrow> bool \<Rightarrow> error + (string \<times> store)" where
  "object_write L S obj actually_write =
     (case serialize obj of
        Inl e \<Rightarrow> Inl e
      | Inr data \<Rightarrow>
          (let result = fmt obj @ '' '' @ str_nat (length data) @ [NUL] @ data;
               sha = hexdigest L result
           in if actually_write
              then Inr (sha, write_file S (slice sha 0 2) (slice_from sha 2)
                               (zlib_compress L result))
              else Inr (sha, S)))"

definition open_object :: "library \<Rightarrow> store \<Rightarrow> string \<Rightarrow> error + bytes" where
  \<comment> \<open>the path, \<open>open\<close> and \<open>zlib.decompress\<close> of \<open>object_read\<close>: \<open>repo_file\<close> gives
      \<open>None\<close> for a missing subdirectory, and \<open>open(None)\<close> raises \<open>TypeError\<close>\<close>
  "open_object L S sha' =
     (case map_of (dirs S) (slice sha' 0 2) of
        None \<Rightarrow> Inl TypeError
      | Some fs \<Rightarrow>
          (case map_of fs (slice_from sha' 2) of
             None \<Rightarrow> Inl FileNotFoundError
           | Some z \<Rightarrow>
               (case zlib_decompress L z of None \<Rightarrow> Inl ZlibError | Some raw \<Rightarrow> Inr raw)))"

definition deserialize :: "bytes \<Rightarrow> bytes \<Rightarrow> (error + GitObject) option" where
  \<comment> \<open>the constructor picked for a known type tag, applied to the payload\<close>
  "deserialize tag data =
     (if tag = ''commit'' then map_option (map_sum id GitCommit) (kvlm_parse data 0 [])
      else if tag = ''tree'' then map_option (map_sum id GitTree) (tree_parse data)
      else if tag = ''tag'' then map_option (map_sum id GitTag) (kvlm_parse data 0 [])
      else Some (Inr (GitBlob data)))"

definition object_read :: "library \<Rightarrow> store \<Rightarrow> string \<Rightarrow> (error + GitObject) option" where
  "object_read L S sha' =
     (case open_object L S sha' of
        Inl e \<Rightarrow> Some (Inl e)
      | Inr raw \<Rightarrow>
          (let x = bytes_find raw SPC 0;
               tag = slice raw 0 x;
               y = bytes_find raw NUL x
           in case decode (slice raw x y) of
                Inl e \<Rightarrow> Some (Inl e)
              | Inr size_str \<Rightarrow>
                  (case py_int 10 size_str of
                     None \<Rightarrow> Some (Inl (ValueError ''invalid literal for int() with base 10''))
                   | Some sz \<Rightarrow>
                       if sz \<noteq> int (length raw) - y - 1
                       then Some (Inl (Exception (''Malformed object '' @ sha' @ '': bad length'')))
                       else if tag = ''commit'' \<or> tag = ''tree'' \<or> tag = ''tag'' \<or> tag = ''blob''
                       then deserialize tag (slice_from raw (y + 1))
                       else (case decode tag of
                               Inl e \<Rightarrow> Some (Inl e)
                             | Inr t \<Rightarrow> Some (Inl (Exception (''Unknown type '' @ t
                                                  @ '' for object '' @ sha')))))))"

section \<open>Well-formed objects and stores\<close>

text \<open>
  The hypotheses of the theorems on the object stores. \<open>library_ok\<close>: decompressing
  what was compressed gives it back, and a digest has 20 bytes. \<open>type_token\<close>: a type
  name is a non-empty ASCII word. \<open>object_bytes\<close>: the bytes both stores hash and
  compress. \<open>slot_ok\<close>: at the address of an object the store is as content addressing
  leaves it: the file is absent or holds this very object, and no other file name of the
  subdirectory starts with the 38 characters of the address.
\<close>

definition library_ok :: "library \<Rightarrow> bool" where
  "library_ok L =
     ((\<forall>x. zlib_decompress L (zlib_compress L x) = Some x) \<and>
      (\<forall>x. length (hashlib_sha1 L x) = 20))"

definition type_token :: "string \<Rightarrow> bool" where
  "type_token t =
     (t \<noteq> [] \<and> list_all (\<lambda>c. \<not> isspace c \<and> c \<noteq> NUL \<and> (of_char c :: nat) < 128) t)"

definition object_bytes :: "string \<Rightarrow> bytes \<Rightarrow> bytes" where
  "object_bytes t data = t @ '' '' @ str_nat (length data) @ [NUL] @ data"

definition slot_ok :: "library \<Rightarrow> store \<Rightarrow> string \<Rightarrow> bytes \<Rightarrow> bool" where
  "slot_ok L S t data =
     (case map_of (dirs S) (take 2 (hexdigest L (object_bytes t data))) of
        None \<Rightarrow> True
      | Some fs \<Rightarrow>
          distinct (map fst fs) \<and>
          list_all (\<lambda>m. prefix (drop 2 (hexdigest L (object_bytes t data))) m
                        \<longrightarrow> m = drop 2 (hexdigest L (object_bytes t data))) (map fst fs) \<and>
          (case map_of fs (drop 2 (hexdigest L (object_bytes t data))) of
             None \<Rightarrow> True
           | Some z \<Rightarrow> z = zlib_compress L (object_bytes t data)))"

definition addresses :: "store \<Rightarrow> (string \<times> string) list" where
  \<comment> \<open>every stored object, as its subdirectory and file name\<close>
  "addresses S = concat (map (\<lambda>(d, fs). map (\<lambda>(n, z). (d, n)) fs) (dirs S))"

definition candidates :: "store \<Rightarrow> string \<Rightarrow> (string \<times> string) list" where
  \<comment> \<open>the stored objects whose address, a directory name followed by a file name, starts with \<open>p\<close>\<close>
  "candidates S p = filter (\<lambda>(d, n). prefix p (d @ n)) (addresses S)"

definition store_wf :: "store \<Rightarrow> bool" where
  \<comment> \<open>names are unique, and a subdirectory is named by two characters\<close>
  "store_wf S =
     (distinct (map fst (dirs S)) \<and>
      list_all (\<lambda>(d, fs). length d = 2 \<and> distinct (map fst fs)) (dirs S))"

definition example_library :: library where
  \<comment> \<open>a stand-in for the examples: a 20-byte checksum, and a one-byte compression header\<close>
  "example_library =
     \<lparr>hashlib_sha1 = (\<lambda>bs. char_of (length bs) # char_of (sum_list (map of_char bs) :: nat)
                              # ''0123456789abcdefgh''),
      zlib_compress = (\<lambda>bs. CHR ''z'' # bs),
      zlib_decompress = (\<lambda>bs. case bs of [] \<Rightarrow> None
                                | c # cs \<Rightarrow> if c = CHR ''z'' then Some cs else None)\<rparr>"

text \<open>The characters \<open>str\<close> produces for a natural number.\<close>

definition decimal :: "char \<Rightarrow> bool" where
  "decimal c = (\<exists>d<10. c = digit_char d)"

text \<open>Stores of the examples.\<close>

definition foo_store :: store where
  "foo_store = \<lparr>dirs = [(''09'', [(''bd303132333435363738396162636465666768'',
                                     ''zfoo 3'' @ [NUL] @ ''abc'')])],
                written = [(''09'', ''bd303132333435363738396162636465666768'')]\<rparr>"

definition prefix_store :: store where
  "prefix_store = \<lparr>dirs = [(''ab'', [(''c1'', ''zblob 5'' @ [NUL] @ ''hello''),
                                      (''c2'', ''zblob 2'' @ [NUL] @ ''hi''),
                                      (''d3'', ''zblob 0'' @ [NUL])])],
                   written = []\<rparr>"

definition other_prefix_store :: store where
  "other_prefix_store = \<lparr>dirs = [(''ab'', [(''c7'', ''zblob 5'' @ [NUL] @ ''hello''),
                                            (''c9'', ''zblob 2'' @ [NUL] @ ''hi'')])],
                         written = []\<rparr>"

section \<open>The index of pygit\<close>

text \<open>
  \<open>read_index\<close> gets the contents of \<open>.git/index\<close>, or \<open>None\<close> when the file is missing.
  The assertions are those of a run without \<open>-O\<close>. \<open>struct.unpack\<close> reads big-endian
  unsigned numbers and raises on a buffer of the wrong length. The fields \<open>mode\<close>, \<open>size\<close>
  and \<open>path\<close> of an \<open>IndexEntry\<close> are \<open>entry_mode\<close>, \<open>entry_size\<close> and \<open>entry_path\<close> here.
\<close>

record IndexEntry =
  ctime_s :: nat
  ctime_n :: nat
  mtime_s :: nat
  mtime_n :: nat
  dev :: nat
  ino :: nat
  entry_mode :: nat
  uid :: nat
  gid :: nat
  entry_size :: nat
  sha1 :: bytes
  flags :: nat
  entry_path :: string

definition repr_byte :: "char \<Rightarrow> char \<Rightarrow> string" where
  "repr_byte q c =
     (if c = q \<or> c = CHR 0x5C then [CHR 0x5C, c]
      else if c = CHR 0x09 then [CHR 0x5C, CHR ''t'']
      else if c = NL then [CHR 0x5C, CHR ''n'']
      else if c = CHR 0x0D then [CHR 0x5C, CHR ''r'']
      else if (of_char c :: nat) < 32 \<or> (of_char c :: nat) \<ge> 127
      then [CHR 0x5C, CHR ''x'', digit_char (of_char c div 16), digit_char (of_char c mod 16)]
      else [c])"

definition repr_bytes :: "bytes \<Rightarrow> string" where
  \<comment> \<open>\<open>repr(bs)\<close>, which an f-string prints for a \<open>bytes\<close> value\<close>
  "repr_bytes bs =
     (let q = (if CHR 0x27 \<in> set bs \<and> CHR 0x22 \<notin> set bs then CHR 0x22 else CHR 0x27)
      in CHR ''b'' # q # concat (map (repr_byte q) bs) @ [q])"

definition unpack_header :: "bytes \<Rightarrow> error + (bytes \<times> nat \<times> nat)" where
  \<comment> \<open>\<open>struct.unpack("!4sLL", b)\<close>\<close>
  "unpack_header b =
     (if length b \<noteq> 12 then Inl StructError
      else Inr (slice b 0 4, from_bytes_big (slice b 4 8), from_bytes_big (slice b 8 12)))"

definition unpack_entry :: "bytes \<Rightarrow> error + (nat list \<times> bytes \<times> nat)" where
  \<comment> \<open>\<open>struct.unpack("!LLLLLLLLLL20sH", b)\<close>: ten numbers, the digest, the flags\<close>
  "unpack_entry b =
     (if length b \<noteq> 62 then Inl StructError
      else Inr (map (\<lambda>k. from_bytes_big (slice b (4 * int k) (4 * int k + 4))) [0..<10],
                slice b 40 60, from_bytes_big (slice b 60 62)))"

function read_entries :: "bytes \<Rightarrow> nat \<Rightarrow> IndexEntry list \<Rightarrow> error + IndexEntry list" where
  "read_entries entry_data i entries =
     (if i + 62 < length entry_data
      then (let fields_end = i + 62
            in case unpack_entry (slice entry_data (int i) (int fields_end)) of
                 Inl e \<Rightarrow> Inl e
               | Inr (f, s, h) \<Rightarrow>
            (case bytes_index entry_data NUL (int fields_end) of
               Inl e \<Rightarrow> Inl e
             | Inr path_end \<Rightarrow>
                 (let path = slice entry_data (int fields_end) path_end
                  in case decode path of
                       Inl e \<Rightarrow> Inl e
                     | Inr p \<Rightarrow>
                         read_entries entry_data (i + ((62 + length path + 8) div 8) * 8)
                           (entries @ [\<lparr>ctime_s = f ! 0, ctime_n = f ! 1, mtime_s = f ! 2,
                                        mtime_n = f ! 3, dev = f ! 4, ino = f ! 5,
                                        entry_mode = f ! 6, uid = f ! 7, gid = f ! 8,
                                        entry_size = f ! 9, sha1 = s, flags = h,
                                        entry_path = p\<rparr>]))))
      else Inr entries)"
  by pat_completeness auto
termination
  by (relation "measure (\<lambda>(d, i, es). length d - i)") auto

declare read_entries.simps [simp del]

definition read_index :: "library \<Rightarrow> bytes option \<Rightarrow> error + IndexEntry list" where
  "read_index L index_file =
     (case index_file of
        None \<Rightarrow> Inr []
      | Some data \<Rightarrow>
          (let digest = hashlib_sha1 L (slice_to data (- 20))
           in if digest \<noteq> slice_from data (- 20)
              then Inl (AssertionError ''invalid index checksum'')
              else case unpack_header (slice_to data 12) of
                     Inl e \<Rightarrow> Inl e
                   | Inr (signature, version, num_entries) \<Rightarrow>
                       if signature \<noteq> ''DIRC''
                       then Inl (AssertionError (''invalid index signature ''
                                                 @ repr_bytes signature))
                       else if version \<noteq> 2
                       then Inl (AssertionError (''unkown index version '' @ str_nat version))
                       else (case read_entries (slice data 12 (- 20)) 0 [] of
                               Inl e \<Rightarrow> Inl e
                             | Inr entries \<Rightarrow>
                                 if length entries \<noteq> num_entries then Inl (AssertionError [])
                                 else Inr entries)))"

section \<open>The working tree and its status (pygit)\<close>

text \<open>
  The working tree is a tree of directories and regular files; what else a file system
  holds (links, devices, files that cannot be read) is outside the model. \<open>os.walk\<close>
  visits a directory, then the subdirectories left in \<open>dirs\<close>; \<open>os.path.join\<close> is the
  one of POSIX. Opening a relative path looks its components up from the top of the
  working tree, where an empty component and \<open>.\<close> stay in place; an absolute path and
  \<open>..\<close> lead out of the tree, to no file of the model.
\<close>

datatype node = File bytes | Dir "(string \<times> node) list"

fun is_dir :: "node \<Rightarrow> bool" where
  "is_dir (Dir es) = True"
| "is_dir (File data) = False"











text \<open>An index for the examples.\<close>

definition example_index_body :: bytes where
  "example_index_body =
     ''DIRC''
     @ [NUL, NUL, NUL, CHR 0x02, NUL, NUL, NUL, CHR 0x02]
     @ [NUL, NUL, NUL, CHR 0x01, NUL, NUL, NUL, CHR 0x02, NUL, NUL, NUL, CHR 0x03, NUL, NUL, NUL, CHR 0x04, NUL, NUL, NUL, CHR 0x05]
     @ [NUL, NUL, NUL, CHR 0x06, NUL, NUL, CHR 0x81, CHR 0xA4, NUL, NUL, NUL, CHR 0x07, NUL, NUL, NUL, CHR 0x08, NUL, NUL, NUL, CHR 0x05]
     @ ''abcdefghijklmnopqrst''
     @ [NUL, CHR 0x01]
     @ ''a''
     @ [NUL]
     @ [NUL, NUL, NUL, CHR 0x01, NUL, NUL, NUL, CHR 0x02, NUL, NUL, NUL, CHR 0x03, NUL, NUL, NUL, CHR 0x04, NUL, NUL, NUL, CHR 0x05]
     @ [NUL, NUL, NUL, CHR 0x06, NUL, NUL, CHR 0x81, CHR 0xA4, NUL, NUL, NUL, CHR 0x07, NUL, NUL, NUL, CHR 0x08, NUL, NUL, NUL, CHR 0x03]
     @ ''ABCDEFGHIJKLMNOPQRST''
     @ [NUL, CHR 0x04]
     @ ''gone''
     @ [NUL, NUL, NUL, NUL, NUL, NUL]"

definition example_index :: bytes where
  \<comment> \<open>two entries, \<open>a\<close> and \<open>gone\<close>, and the digest \<open>example_library\<close> gives the 148 bytes\<close>
  "example_index = example_index_body @ [CHR 0x94, CHR 0xF3] @ ''0123456789abcdefgh''"

text \<open>
  The regular files the status is about, by the names that lead to them from the top of
  the working tree: no directory on the way is named \<open>.git\<close>.
\<close>

inductive file_at :: "node \<Rightarrow> string list \<Rightarrow> bool" where
  a_file: "(f, n) \<in> set es \<Longrightarrow> \<not> is_dir n \<Longrightarrow> file_at (Dir es) [f]"
| in_dir: "(d, n) \<in> set es \<Longrightarrow> is_dir n \<Longrightarrow> d \<noteq> ''.git'' \<Longrightarrow> file_at n cs
        \<Longrightarrow> file_at (Dir es) (d # cs)"


section \<open>Evaluation rules\<close>

lemmas py_eval =
  clamp_index_def slice_def slice_from_def slice_to_def getitem_def bytes_find_def
  bytes_index_def digit_char_def str_nat.simps hex_nat.simps from_bytes_big_def
  to_bytes_big_def isspace_def digit_of_def strip_def py_int_def char_of_def bit_iff_odd
  upt_rec Let_def

lemmas text_eval =
  clamp_index_def slice_def slice_from_def slice_to_def getitem_def bytes_find_def
  bytes_index_def digit_char_def str_nat.simps isspace_def digit_of_def strip_def py_int_def
  Let_def hexdigest_def hex_bytes_def decode_def split_def str_int_def

lemmas store_eval =
  path_exists_def read_file_def write_file_def hash_object_def find_object_def read_object_def
  object_write_def open_object_def object_read_def example_library_def

lemmas prefix_eval = prefix_store_def other_prefix_store_def candidates_def addresses_def

lemmas index_eval =
  unpack_header_def unpack_entry_def read_entries.simps from_bytes_big_def
  decode_def clamp_index_def slice_def slice_from_def slice_to_def
  bytes_index_def bytes_find_def Let_def upt_rec


section \<open>Tree objects: the round trip\<close>

text \<open>
  C1. Parsing the serialization of a list of tree entries should give the same list, with
  every digest in its full rendering of 40 lowercase hex characters. \<open>tree_parse_one\<close>
  renders the 20 digest bytes with \<open>hex(int.from_bytes(...))[2:]\<close>, which prints no leading
  zero: the entry below, whose digest starts with \<open>0\<close>, serializes to the expected 29
  bytes and parses back with a digest of 39 characters.
\<close>

theorem tree_roundtrip_drops_leading_zero:
  "tree_serialize
     [\<lparr>mode = ''100644'', path = ''a'', sha = ''0123456789abcdef0123456789abcdef01234567''\<rparr>]
   = Inr (''100644 a'' @
          [NUL, CHR 0x01, CHR 0x23, CHR 0x45, CHR 0x67, CHR 0x89, CHR 0xAB, CHR 0xCD, CHR 0xEF,
           CHR 0x01, CHR 0x23, CHR 0x45, CHR 0x67, CHR 0x89, CHR 0xAB, CHR 0xCD, CHR 0xEF,
           CHR 0x01, CHR 0x23, CHR 0x45, CHR 0x67])
   \<and> tree_parse (''100644 a'' @
          [NUL, CHR 0x01, CHR 0x23, CHR 0x45, CHR 0x67, CHR 0x89, CHR 0xAB, CHR 0xCD, CHR 0xEF,
           CHR 0x01, CHR 0x23, CHR 0x45, CHR 0x67, CHR 0x89, CHR 0xAB, CHR 0xCD, CHR 0xEF,
           CHR 0x01, CHR 0x23, CHR 0x45, CHR 0x67])
   = Some (Inr [\<lparr>mode = ''100644'', path = ''a'',
                  sha = ''123456789abcdef0123456789abcdef01234567''\<rparr>])"
  by (simp add: tree_serialize_def tree_parse_def tree_parse_loop.simps tree_parse_one_def py_eval)

section \<open>Key-value lists: the serializer's message\<close>

lemma replace_nl_last: "replace_nl v \<noteq> [] \<Longrightarrow> last (replace_nl v) \<noteq> NL"
  by (induction v) (auto split: if_splits)

lemma ends_line_append_line: "ends_line (ret @ k @ SPC # replace_nl v @ [NL])"
proof (cases "replace_nl v = []")
  case True
  then show ?thesis unfolding ends_line_def by (auto intro: exI[of _ "ret @ k"])
next
  case False
  then obtain l c where lc: "replace_nl v = l @ [c]" by (metis rev_exhaust)
  with replace_nl_last[OF False] have "c \<noteq> NL" by simp
  then show ?thesis unfolding ends_line_def lc
    by (auto intro!: exI[of _ "ret @ k @ [SPC] @ l"])
qed

lemma ends_line_values: "ends_line ret \<Longrightarrow> ends_line (kvlm_serialize_values ret k vs)"
  by (induction vs arbitrary: ret) (simp_all add: ends_line_append_line)

lemma ends_line_fields: "ends_line ret \<Longrightarrow> ends_line (kvlm_serialize_fields ret d)"
  by (induction ret d rule: kvlm_serialize_fields.induct) (auto simp: ends_line_values)

text \<open>
  C10. \<open>kvlm_serialize\<close> needs the message entry, the one under the empty key: without it
  the lookup \<open>kvlm[b""]\<close> raises \<open>KeyError\<close> and nothing is returned. With it, the output
  is the header block, one newline, and the message bytes as they are; the header block is
  empty or ends with the newline of a line that is not blank, so exactly one blank line
  stands before the message.
\<close>

theorem kvlm_serialize_message:
  "(map_of d [] = None \<longrightarrow> kvlm_serialize d = Inl KeyError) \<and>
   (map_of d [] = Some (Single m) \<longrightarrow>
      (\<exists>h. kvlm_serialize d = Inr (h @ [NL] @ m) \<and>
           (h = [] \<or> (\<exists>l c. h = l @ [c, NL] \<and> c \<noteq> NL))))"
proof -
  have "ends_line (kvlm_serialize_fields [] d)"
    by (rule ends_line_fields) (simp add: ends_line_def)
  then show ?thesis
    by (auto simp: kvlm_serialize_def ends_line_def)
qed

theorem kvlm_serialize_message_witness:
  "map_of [(''tree'', Single ''ab'')] [] = None \<and>
   kvlm_serialize [(''tree'', Single ''ab'')] = Inl KeyError \<and>
   map_of [(''tree'', Single ''ab''), ([], Single ''msg'')] [] = Some (Single ''msg'') \<and>
   (\<exists>h. kvlm_serialize [(''tree'', Single ''ab''), ([], Single ''msg'')] = Inr (h @ [NL] @ ''msg'') \<and>
        (h = [] \<or> (\<exists>l c. h = l @ [c, NL] \<and> c \<noteq> NL)))"
  using kvlm_serialize_message [of "[(''tree'', Single ''ab'')]" "''x''"]
        kvlm_serialize_message [of "[(''tree'', Single ''ab''), ([], Single ''msg'')]" "''msg''"]
  by simp

section \<open>References: cycles\<close>


lemma slice_from_append: "slice_from (xs @ ys) (int (length xs)) = ys"
  by (simp add: slice_from_def clamp_index_def)




lemma ref_resolve_chain:
  "ref_resolve [''A'' \<mapsto> ''ref: B'' @ [NL],
                ''B'' \<mapsto> ''0123456789abcdef0123456789abcdef01234567'' @ [NL]] ''A''
   = Some (Inr ''0123456789abcdef0123456789abcdef01234567'')"
  by (simp add: ref_resolve.simps slice_to_def slice_from_def clamp_index_def)




section \<open>Key-value lists: the round trip\<close>

lemma clamp_index_int [simp]: "clamp_index n (int a) = min a n"
  by (simp add: clamp_index_def)

lemma index_of_append_notin:
  "c \<notin> set ys \<Longrightarrow>
   index_of c (ys @ zs) = (case index_of c zs of None \<Rightarrow> None | Some k \<Rightarrow> Some (length ys + k))"
  by (induction ys) (auto split: option.splits)

lemma index_of_notin: "c \<notin> set ys \<Longrightarrow> index_of c ys = None"
  by (induction ys) auto

lemma bytes_find_first:
  "c \<notin> set ys \<Longrightarrow> bytes_find (xs @ ys @ c # zs) c (int (length xs)) = int (length xs + length ys)"
  by (simp add: bytes_find_def index_of_append_notin)

lemma bytes_find_none:
  "c \<notin> set ys \<Longrightarrow> bytes_find (xs @ ys) c (int (length xs)) = - 1"
  by (simp add: bytes_find_def index_of_notin)

lemma slice_mid: "slice (xs @ ys @ zs) (int (length xs)) (int (length xs + length ys)) = ys"
  by (simp add: slice_def clamp_index_def)




























section \<open>Object store: the round trip of pygit\<close>

lemma digit_char_decimal:
  assumes "d < 10"
  shows "digit_of (digit_char d) = Some d" and "\<not> isspace (digit_char d)" and "digit_char d \<noteq> NUL"
    and "(of_char (digit_char d) :: nat) < 128" and "digit_char d \<noteq> CHR ''_''"
    and "digit_char d \<noteq> CHR ''-''" and "digit_char d \<noteq> CHR ''+''"
proof -
  from assms have "d \<in> {0, 1, 2, 3, 4, 5, 6, 7, 8, 9}" by auto
  then show "digit_of (digit_char d) = Some d" and "\<not> isspace (digit_char d)" and "digit_char d \<noteq> NUL"
    and "(of_char (digit_char d) :: nat) < 128" and "digit_char d \<noteq> CHR ''_''"
    and "digit_char d \<noteq> CHR ''-''" and "digit_char d \<noteq> CHR ''+''"
    by (auto simp: digit_char_def digit_of_def isspace_def)
qed

lemma str_nat_decimal: "list_all decimal (str_nat n)"
proof (induction n rule: str_nat.induct)
  case (1 n)
  show ?case
  proof (cases "n < 10")
    case True
    then show ?thesis by (subst str_nat.simps) (auto simp: decimal_def)
  next
    case False
    have "n mod 10 < 10" by simp
    then have "decimal (digit_char (n mod 10))" unfolding decimal_def by blast
    with 1 False show ?thesis by (subst str_nat.simps) simp
  qed
qed

lemma str_nat_nonempty: "str_nat n \<noteq> []"
  by (subst str_nat.simps) simp

lemma int_digits_str_nat:
  "int_digits 10 p acc (str_nat n @ cs) = int_digits 10 True (acc * 10 ^ length (str_nat n) + n) cs"
proof (induction n arbitrary: p acc cs rule: str_nat.induct)
  case (1 n)
  show ?case
  proof (cases "n < 10")
    case True
    then have s: "str_nat n = [digit_char n]" by (subst str_nat.simps) simp
    show ?thesis using digit_char_decimal[OF True] True by (simp add: s)
  next
    case False
    have m: "n mod 10 < 10" by simp
    have s: "str_nat n = str_nat (n div 10) @ [digit_char (n mod 10)]"
      using False by (subst str_nat.simps) simp
    have "int_digits 10 p acc (str_nat (n div 10) @ digit_char (n mod 10) # cs)
        = int_digits 10 True (acc * 10 ^ length (str_nat (n div 10)) + n div 10)
            (digit_char (n mod 10) # cs)"
      using 1[OF False] by simp
    also have "\<dots> = int_digits 10 True
        ((acc * 10 ^ length (str_nat (n div 10)) + n div 10) * 10 + n mod 10) cs"
      using digit_char_decimal[OF m] by simp
    also have "(acc * 10 ^ length (str_nat (n div 10)) + n div 10) * 10 + n mod 10
             = acc * 10 ^ length (str_nat n) + n"
      by (simp add: s algebra_simps)
    finally show ?thesis by (simp add: s)
  qed
qed

lemma decimal_facts:
  assumes "list_all decimal ds"
  shows "list_all (\<lambda>c. \<not> isspace c) ds" and "NUL \<notin> set ds"
    and "list_all (\<lambda>c. (of_char c :: nat) < 128) ds"
    and "CHR ''-'' \<notin> set ds" and "CHR ''+'' \<notin> set ds"
  using assms digit_char_decimal by (fastforce simp: list_all_iff decimal_def)+

lemma strip_word: "s \<noteq> [] \<Longrightarrow> list_all (\<lambda>c. \<not> isspace c) s \<Longrightarrow> strip s = s"
proof -
  assume ne: "s \<noteq> []" and w: "list_all (\<lambda>c. \<not> isspace c) s"
  then have "\<not> isspace (hd s)" by (cases s) auto
  with ne have a: "dropWhile isspace s = s" by (cases s) auto
  from ne w have "\<not> isspace (hd (rev s))"
    by (metis hd_rev last_in_set list_all_iff)
  with ne have "dropWhile isspace (rev s) = rev s" by (cases "rev s") auto
  with a show ?thesis by (simp add: strip_def)
qed

lemma py_int_str_nat: "py_int 10 (str_nat n) = Some (int n)"
proof -
  have d: "list_all decimal (str_nat n)" by (rule str_nat_decimal)
  have s: "strip (str_nat n) = str_nat n"
    using str_nat_nonempty decimal_facts(1)[OF d] by (rule strip_word)
  obtain c cs where cc: "str_nat n = c # cs" using str_nat_nonempty[of n] by (cases "str_nat n") auto
  from decimal_facts(4,5)[OF d] cc have "c \<noteq> CHR ''-''" "c \<noteq> CHR ''+''" by auto
  then have t1: "take 1 (str_nat n) \<noteq> ''-''" "take 1 (str_nat n) \<noteq> ''+''"
    by (simp_all add: cc)
  have "int_digits 10 False 0 (str_nat n @ []) = Some n"
    by (simp only: int_digits_str_nat) simp
  then have dg: "int_digits 10 False 0 (str_nat n) = Some n" by simp
  show ?thesis unfolding py_int_def s Let_def using t1 dg by simp
qed

lemma split_words_word:
  "list_all (\<lambda>c. \<not> isspace c) u \<Longrightarrow> split_words w (u @ rest) = split_words (w @ u) rest"
  by (induction u arbitrary: w) simp_all

lemma split_two_words:
  assumes "a \<noteq> []" "list_all (\<lambda>c. \<not> isspace c) a" "b \<noteq> []" "list_all (\<lambda>c. \<not> isspace c) b"
  shows "split (a @ SPC # b) = [a, b]"
proof -
  have "split (a @ SPC # b) = split_words a (SPC # b)"
    using split_words_word[OF assms(2), of "[]" "SPC # b"] by (simp add: split_def)
  also have "\<dots> = a # split_words [] (b @ [])" using assms(1) by (simp add: isspace_def)
  also have "split_words [] (b @ []) = split_words b []"
    using split_words_word[OF assms(4), of "[]" "[]"] by simp
  finally show ?thesis using assms(3) by simp
qed


lemma slice_to_take: "slice_to xs 2 = take 2 xs"
  by (simp add: slice_to_def clamp_index_def min_def)

lemma slice_from_drop: "slice_from xs 2 = drop 2 xs"
  by (simp add: slice_from_def clamp_index_def min_def)

lemma slice_0_take: "slice xs 0 2 = take 2 xs"
  by (simp add: slice_def clamp_index_def min_def)

lemma slice_to_prefix: "slice_to (xs @ ys) (int (length xs)) = xs"
  by (simp add: slice_to_def)

lemma hex_bytes_length: "length (hex_bytes bs) = 2 * length bs"
  by (induction bs) (simp_all add: hex_bytes_def)

lemma hexdigest_length: "library_ok L \<Longrightarrow> length (hexdigest L x) = 40"
  by (simp add: hexdigest_def hex_bytes_length library_ok_def)

lemma token_facts:
  assumes "type_token t"
  shows "t \<noteq> []" and "list_all (\<lambda>c. \<not> isspace c) t" and "NUL \<notin> set t"
    and "list_all (\<lambda>c. (of_char c :: nat) < 128) t" and "SPC \<notin> set t"
  using assms by (auto simp: type_token_def list_all_iff isspace_def)

lemma header_parts:
  assumes t: "type_token t"
  shows "bytes_index (object_bytes t data) NUL 0
           = Inr (int (length (t @ '' '' @ str_nat (length data))))"
    and "slice_to (object_bytes t data) (int (length (t @ '' '' @ str_nat (length data))))
           = t @ '' '' @ str_nat (length data)"
    and "decode (t @ '' '' @ str_nat (length data)) = Inr (t @ '' '' @ str_nat (length data))"
    and "split (t @ '' '' @ str_nat (length data)) = [t, str_nat (length data)]"
    and "slice_from (object_bytes t data) (int (length (t @ '' '' @ str_nat (length data))) + 1)
           = data"
proof -
  let ?h = "t @ '' '' @ str_nat (length data)"
  have d: "list_all decimal (str_nat (length data))" by (rule str_nat_decimal)
  have nonul: "NUL \<notin> set ?h"
    using token_facts(3)[OF t] decimal_facts(2)[OF d] by simp
  have "bytes_find ([] @ ?h @ NUL # data) NUL (int (length ([]::bytes)))
          = int (length ([]::bytes) + length ?h)"
    using nonul by (rule bytes_find_first)
  then show "bytes_index (object_bytes t data) NUL 0 = Inr (int (length ?h))"
    by (simp add: bytes_index_def object_bytes_def)
  have "slice_to (?h @ NUL # data) (int (length ?h)) = ?h" by (rule slice_to_prefix)
  then show "slice_to (object_bytes t data) (int (length ?h)) = ?h"
    by (simp add: object_bytes_def)
  show "decode ?h = Inr ?h"
    using token_facts(4)[OF t] decimal_facts(3)[OF d] by (simp add: decode_def)
  show "split ?h = [t, str_nat (length data)]"
    using split_two_words[OF token_facts(1,2)[OF t] str_nat_nonempty decimal_facts(1)[OF d]]
    by simp
  have "slice_from ((?h @ [NUL]) @ data) (int (length (?h @ [NUL]))) = data"
    by (rule slice_from_append)
  then show "slice_from (object_bytes t data) (int (length ?h) + 1) = data"
    by (simp add: object_bytes_def add.commute)
qed

lemma read_object_of_file:
  assumes "find_object S p = Inr (d, n)" and "read_file S d n = Inr z"
    and "zlib_decompress L z = Some (object_bytes t data)" and "type_token t"
  shows "read_object L S p = Inr (t, data)"
  unfolding read_object_def
  by (simp only: assms(1,2,3) header_parts[OF assms(4)] py_int_str_nat sum.case prod.case
        option.case list.case Let_def)
     simp

lemma filter_unique:
  assumes "distinct xs" and "n \<in> set xs" and "\<forall>m\<in>set xs. P m \<longrightarrow> m = n" and "P n"
  shows "filter P xs = [n]"
  using assms(1-3)
proof (induction xs)
  case Nil
  then show ?case by simp
next
  case (Cons x xs)
  from Cons.prems(1) have dx: "x \<notin> set xs" and d: "distinct xs" by simp_all
  from Cons.prems(3) have u: "\<forall>m\<in>set xs. P m \<longrightarrow> m = n" by simp
  show ?case
  proof (cases "x = n")
    case True
    have "filter P xs = []"
      unfolding filter_empty_conv
    proof (intro ballI notI)
      fix m assume "m \<in> set xs" "P m"
      with u have "m = n" by blast
      with \<open>m \<in> set xs\<close> dx True show False by simp
    qed
    with True assms(4) show ?thesis by simp
  next
    case False
    with Cons.prems(3) have "\<not> P x" by auto
    moreover from False Cons.prems(2) have "n \<in> set xs" by simp
    ultimately show ?thesis using Cons.IH[OF d _ u] by simp
  qed
qed

lemma hash_object_result:
  "hash_object L S data t True =
     (hexdigest L (object_bytes t data),
      if path_exists S (take 2 (hexdigest L (object_bytes t data)))
                       (drop 2 (hexdigest L (object_bytes t data)))
      then S
      else write_file S (take 2 (hexdigest L (object_bytes t data)))
                        (drop 2 (hexdigest L (object_bytes t data)))
                        (zlib_compress L (object_bytes t data)))"
  unfolding hash_object_def object_bytes_def Let_def slice_to_take slice_from_drop
  by simp

lemma find_object_unique:
  assumes "2 \<le> length p" and "map_of (dirs S) (take 2 p) = Some fs"
    and "filter (prefix (drop 2 p)) (map fst fs) = [n]"
  shows "find_object S p = Inr (take 2 p, n)"
  using assms by (simp add: find_object_def slice_to_take slice_from_drop Let_def)

lemma stored_after_hash_object:
  assumes ok: "slot_ok L S t data"
  defines "key \<equiv> hexdigest L (object_bytes t data)"
  defines "S' \<equiv> snd (hash_object L S data t True)"
  shows "\<exists>fs. map_of (dirs S') (take 2 key) = Some fs \<and>
              filter (prefix (drop 2 key)) (map fst fs) = [drop 2 key] \<and>
              map_of fs (drop 2 key) = Some (zlib_compress L (object_bytes t data))"
proof (cases "map_of (dirs S) (take 2 key)")
  case None
  then have "S' = write_file S (take 2 key) (drop 2 key) (zlib_compress L (object_bytes t data))"
    by (simp add: S'_def key_def hash_object_result path_exists_def)
  with None show ?thesis
    by (simp add: write_file_def AList.update_conv')
next
  case (Some fs)
  from ok have "distinct (map fst fs) \<and>
      list_all (\<lambda>m. prefix (drop 2 key) m \<longrightarrow> m = drop 2 key) (map fst fs) \<and>
      (case map_of fs (drop 2 key) of None \<Rightarrow> True
       | Some z \<Rightarrow> z = zlib_compress L (object_bytes t data))"
    unfolding slot_ok_def key_def[symmetric] Some by simp
  note inv = this
  have d: "distinct (map fst fs)" using inv by simp
  have u: "\<forall>m\<in>set (map fst fs). prefix (drop 2 key) m \<longrightarrow> m = drop 2 key"
    using inv by (simp add: list_all_iff)
  have c: "z = zlib_compress L (object_bytes t data)" if "map_of fs (drop 2 key) = Some z" for z
    using inv by (simp only: that option.case)
  show ?thesis
  proof (cases "map_of fs (drop 2 key)")
    case None
    then have notin: "drop 2 key \<notin> set (map fst fs)"
      by (simp add: map_of_eq_None_iff)
    let ?fs' = "AList.update (drop 2 key) (zlib_compress L (object_bytes t data)) fs"
    from None Some have "S' = write_file S (take 2 key) (drop 2 key) (zlib_compress L (object_bytes t data))"
      by (simp add: S'_def key_def hash_object_result path_exists_def)
    with Some have m: "map_of (dirs S') (take 2 key) = Some ?fs'"
      by (simp add: write_file_def AList.update_conv')
    have k: "map fst ?fs' = map fst fs @ [drop 2 key]"
      using notin by (simp add: AList.update_keys)
    have "filter (prefix (drop 2 key)) (map fst fs) = []"
      unfolding filter_empty_conv
    proof (intro ballI notI)
      fix m assume m: "m \<in> set (map fst fs)" and p: "prefix (drop 2 key) m"
      with u have "m = drop 2 key" by blast
      with notin m show False by simp
    qed
    then have f: "filter (prefix (drop 2 key)) (map fst ?fs') = [drop 2 key]"
      by (simp add: k)
    have "map_of ?fs' (drop 2 key) = Some (zlib_compress L (object_bytes t data))"
      by (simp add: AList.update_conv')
    with m f show ?thesis by blast
  next
    case (Some z)
    with c[OF Some] have z: "map_of fs (drop 2 key) = Some (zlib_compress L (object_bytes t data))"
      by simp
    from map_of_SomeD[OF z] have mem: "drop 2 key \<in> set (map fst fs)" by force
    from z \<open>map_of (dirs S) (take 2 key) = Some fs\<close> have "S' = S"
      by (simp add: S'_def key_def hash_object_result path_exists_def)
    moreover have "filter (prefix (drop 2 key)) (map fst fs) = [drop 2 key]"
      using d mem u by (rule filter_unique) simp
    ultimately show ?thesis using z \<open>map_of (dirs S) (take 2 key) = Some fs\<close> by simp
  qed
qed

lemma read_after_hash_object:
  assumes L: "library_ok L" and t: "type_token t" and ok: "slot_ok L S t data"
  shows "read_object L (snd (hash_object L S data t True)) (fst (hash_object L S data t True))
         = Inr (t, data)"
proof -
  let ?sha = "hexdigest L (object_bytes t data)"
  let ?S' = "snd (hash_object L S data t True)"
  have sha: "fst (hash_object L S data t True) = ?sha" by (simp add: hash_object_result)
  from stored_after_hash_object[OF ok] obtain fs where
    m: "map_of (dirs ?S') (take 2 ?sha) = Some fs" and
    f: "filter (prefix (drop 2 ?sha)) (map fst fs) = [drop 2 ?sha]" and
    z: "map_of fs (drop 2 ?sha) = Some (zlib_compress L (object_bytes t data))"
    by blast
  have len: "2 \<le> length ?sha" using hexdigest_length[OF L, of "object_bytes t data"] by simp
  have fo: "find_object ?S' ?sha = Inr (take 2 ?sha, drop 2 ?sha)"
    using len m f by (rule find_object_unique)
  have rf: "read_file ?S' (take 2 ?sha) (drop 2 ?sha) = Inr (zlib_compress L (object_bytes t data))"
    using m z by (simp add: read_file_def)
  have de: "zlib_decompress L (zlib_compress L (object_bytes t data)) = Some (object_bytes t data)"
    using L by (simp add: library_ok_def)
  show ?thesis unfolding sha using fo rf de t by (rule read_object_of_file)
qed

lemma known_types_token:
  "t \<in> {''blob'', ''tree'', ''commit'', ''tag''} \<Longrightarrow> type_token t"
  by (auto simp: type_token_def isspace_def)

text \<open>
  C2. Writing an object with pygit's \<open>hash_object\<close> and reading it back with
  \<open>read_object\<close> by the returned digest gives the same type and the same data, for
  each of the four known types. The library functions are those of \<open>library_ok\<close>
  (decompression undoes compression, a digest has 20 bytes), and the store holds no other
  object whose name starts with the new digest, and none at the digest's own path with
  different contents (\<open>slot_ok\<close>).
\<close>

theorem object_roundtrip:
  assumes "library_ok L" and "obj_type \<in> {''blob'', ''tree'', ''commit'', ''tag''}"
    and "slot_ok L S obj_type data"
  shows "read_object L (snd (hash_object L S data obj_type True))
                       (fst (hash_object L S data obj_type True)) = Inr (obj_type, data)"
  using assms(1) known_types_token[OF assms(2)] assms(3) by (rule read_after_hash_object)

lemma example_library_ok: "library_ok example_library"
  by (simp add: library_ok_def example_library_def)

text \<open>A blob written to the empty store and read back.\<close>

theorem object_roundtrip_witness:
  "library_ok example_library \<and>
   ''blob'' \<in> {''blob'', ''tree'', ''commit'', ''tag''} \<and>
   slot_ok example_library \<lparr>dirs = [], written = []\<rparr> ''blob'' ''hello'' \<and>
   read_object example_library
     (snd (hash_object example_library \<lparr>dirs = [], written = []\<rparr> ''hello'' ''blob'' True))
     (fst (hash_object example_library \<lparr>dirs = [], written = []\<rparr> ''hello'' ''blob'' True))
   = Inr (''blob'', ''hello'')"
proof -
  have s: "slot_ok example_library \<lparr>dirs = [], written = []\<rparr> ''blob'' ''hello''"
    by (simp add: slot_ok_def)
  have k: "''blob'' \<in> {''blob'', ''tree'', ''commit'', ''tag''}" by simp
  from object_roundtrip[OF example_library_ok k s] example_library_ok s show ?thesis by simp
qed

section \<open>Object store: writing twice\<close>

lemma path_exists_write_file: "path_exists (write_file S d n z) d n"
  by (simp add: path_exists_def write_file_def AList.update_conv')

lemma hash_object_twice:
  "hash_object L (snd (hash_object L S data t True)) data t True = hash_object L S data t True"
  by (simp add: hash_object_result path_exists_write_file)

lemma write_file_twice:
  "write_file (write_file S d n z) d n z
   = (write_file S d n z)\<lparr>written := written (write_file S d n z) @ [(d, n)]\<rparr>"
proof -
  let ?fs = "AList.update n z (case map_of (dirs S) d of None \<Rightarrow> [] | Some fs \<Rightarrow> fs)"
  have a: "map_of (dirs (write_file S d n z)) d = Some ?fs"
    by (simp add: write_file_def AList.update_conv')
  have b: "AList.update n z ?fs = ?fs"
    by (rule AList.update_triv) (simp add: AList.update_conv')
  have c: "AList.update d ?fs (dirs (write_file S d n z)) = dirs (write_file S d n z)"
    using a by (rule AList.update_triv)
  show ?thesis
    unfolding write_file_def[of "write_file S d n z"] a option.case b c by simp
qed

lemma object_write_twice:
  assumes "object_write L S obj True = Inr (s, S1)"
  shows "object_write L S1 obj True = Inr (s, S1\<lparr>written := written S1 @ [(take 2 s, drop 2 s)]\<rparr>)"
proof -
  from assms obtain data where d: "serialize obj = Inr data"
    by (cases "serialize obj") (simp_all add: object_write_def)
  let ?r = "fmt obj @ '' '' @ str_nat (length data) @ [NUL] @ data"
  from assms d have s: "s = hexdigest L ?r"
    by (auto simp add: object_write_def Let_def slice_0_take slice_from_drop)
  from assms d have S1: "S1 = write_file S (take 2 s) (drop 2 s) (zlib_compress L ?r)"
    by (auto simp add: object_write_def Let_def slice_0_take slice_from_drop)
  have "object_write L S1 obj True
        = Inr (s, write_file S1 (take 2 s) (drop 2 s) (zlib_compress L ?r))"
    using d s by (simp add: object_write_def Let_def slice_0_take slice_from_drop)
  then show ?thesis unfolding S1 by (simp only: write_file_twice)
qed

text \<open>
  C4. Writing the same content twice. Both writers return the same digest both times.
  pygit's \<open>hash_object\<close> leaves the whole store as it was after the first write,
  the record of file writes included. libwyag's \<open>object_write\<close> leaves the
  directories as they were, and writes the file a second time.
\<close>

theorem write_twice:
  "hash_object L (snd (hash_object L S data t True)) data t True = hash_object L S data t True \<and>
   (object_write L S obj True = Inr (s, S1) \<longrightarrow>
      object_write L S1 obj True
      = Inr (s, S1\<lparr>written := written S1 @ [(take 2 s, drop 2 s)]\<rparr>))"
  using hash_object_twice object_write_twice by blast

text \<open>
  The second call of \<open>object_write\<close> opens the same path for writing again: the path
  is twice in the record of writes, the directories are the same.
\<close>

theorem write_twice_counterexample:
  "object_write example_library \<lparr>dirs = [], written = []\<rparr> (GitBlob ''hello'') True
   = Inr (''0c08303132333435363738396162636465666768'',
          \<lparr>dirs = [(''0c'', [(''08303132333435363738396162636465666768'', ''zblob 5'' @ [NUL] @ ''hello'')])],
           written = [(''0c'', ''08303132333435363738396162636465666768'')]\<rparr>) \<and>
   object_write example_library
     \<lparr>dirs = [(''0c'', [(''08303132333435363738396162636465666768'', ''zblob 5'' @ [NUL] @ ''hello'')])],
      written = [(''0c'', ''08303132333435363738396162636465666768'')]\<rparr> (GitBlob ''hello'') True
   = Inr (''0c08303132333435363738396162636465666768'',
          \<lparr>dirs = [(''0c'', [(''08303132333435363738396162636465666768'', ''zblob 5'' @ [NUL] @ ''hello'')])],
           written = [(''0c'', ''08303132333435363738396162636465666768''),
                      (''0c'', ''08303132333435363738396162636465666768'')]\<rparr>)"
  by (simp add: store_eval text_eval)

text \<open>The two writers on the empty store, each called twice.\<close>

theorem write_twice_witness:
  "hash_object example_library (snd (hash_object example_library \<lparr>dirs = [], written = []\<rparr> ''hello'' ''blob'' True)) ''hello'' ''blob'' True
     = hash_object example_library \<lparr>dirs = [], written = []\<rparr> ''hello'' ''blob'' True \<and>
   object_write example_library \<lparr>dirs = [], written = []\<rparr> (GitBlob ''hello'') True
   = Inr (''0c08303132333435363738396162636465666768'',
          \<lparr>dirs = [(''0c'', [(''08303132333435363738396162636465666768'', ''zblob 5'' @ [NUL] @ ''hello'')])],
           written = [(''0c'', ''08303132333435363738396162636465666768'')]\<rparr>) \<and>
   object_write example_library
     \<lparr>dirs = [(''0c'', [(''08303132333435363738396162636465666768'', ''zblob 5'' @ [NUL] @ ''hello'')])],
      written = [(''0c'', ''08303132333435363738396162636465666768'')]\<rparr> (GitBlob ''hello'') True
   = Inr (''0c08303132333435363738396162636465666768'',
          \<lparr>dirs = [(''0c'', [(''08303132333435363738396162636465666768'', ''zblob 5'' @ [NUL] @ ''hello'')])],
           written = [(''0c'', ''08303132333435363738396162636465666768'')]\<rparr>
           \<lparr>written := [(''0c'', ''08303132333435363738396162636465666768'')]
                       @ [(take 2 ''0c08303132333435363738396162636465666768'',
                           drop 2 ''0c08303132333435363738396162636465666768'')]\<rparr>)"
proof -
  have a: "object_write example_library \<lparr>dirs = [], written = []\<rparr> (GitBlob ''hello'') True
   = Inr (''0c08303132333435363738396162636465666768'',
          \<lparr>dirs = [(''0c'', [(''08303132333435363738396162636465666768'', ''zblob 5'' @ [NUL] @ ''hello'')])],
           written = [(''0c'', ''08303132333435363738396162636465666768'')]\<rparr>)"
    by (simp add: store_eval text_eval)
  from write_twice[of example_library "\<lparr>dirs = [], written = []\<rparr>" "''hello''" "''blob''" "GitBlob ''hello''"
      "''0c08303132333435363738396162636465666768''"
      "\<lparr>dirs = [(''0c'', [(''08303132333435363738396162636465666768'', ''zblob 5'' @ [NUL] @ ''hello'')])],
           written = [(''0c'', ''08303132333435363738396162636465666768'')]\<rparr>"] a
  show ?thesis by simp
qed

section \<open>Object stores: an unknown type tag\<close>

lemma py_int_leading_space: "py_int b (SPC # s) = py_int b s"
  by (simp add: py_int_def strip_def isspace_def)

lemma object_bytes_fields:
  assumes t: "type_token t"
  shows "bytes_find (object_bytes t data) SPC 0 = int (length t)"
    and "slice (object_bytes t data) 0 (int (length t)) = t"
    and "bytes_find (object_bytes t data) NUL (int (length t))
           = int (length t + length (SPC # str_nat (length data)))"
    and "slice (object_bytes t data) (int (length t))
           (int (length t + length (SPC # str_nat (length data)))) = SPC # str_nat (length data)"
    and "decode (SPC # str_nat (length data)) = Inr (SPC # str_nat (length data))"
    and "decode t = Inr t"
proof -
  let ?n = "str_nat (length data)"
  have d: "list_all decimal ?n" by (rule str_nat_decimal)
  have "bytes_find ([] @ t @ SPC # (?n @ NUL # data)) SPC (int (length ([]::bytes)))
          = int (length ([]::bytes) + length t)"
    using token_facts(5)[OF t] by (rule bytes_find_first)
  then show "bytes_find (object_bytes t data) SPC 0 = int (length t)"
    by (simp add: object_bytes_def)
  have "slice ([] @ t @ (SPC # ?n @ NUL # data)) (int (length ([]::bytes)))
          (int (length ([]::bytes) + length t)) = t"
    by (rule slice_mid)
  then show "slice (object_bytes t data) 0 (int (length t)) = t"
    by (simp add: object_bytes_def)
  have "NUL \<notin> set (SPC # ?n)" using decimal_facts(2)[OF d] by simp
  then have "bytes_find (t @ (SPC # ?n) @ NUL # data) NUL (int (length t))
          = int (length t + length (SPC # ?n))"
    by (rule bytes_find_first)
  then show "bytes_find (object_bytes t data) NUL (int (length t))
           = int (length t + length (SPC # ?n))"
    by (simp add: object_bytes_def)
  have "slice (t @ (SPC # ?n) @ (NUL # data)) (int (length t))
          (int (length t + length (SPC # ?n))) = SPC # ?n"
    by (rule slice_mid)
  then show "slice (object_bytes t data) (int (length t))
           (int (length t + length (SPC # ?n))) = SPC # ?n"
    by (simp add: object_bytes_def)
  show "decode (SPC # ?n) = Inr (SPC # ?n)"
    using decimal_facts(3)[OF d] by (simp add: decode_def)
  show "decode t = Inr t" using token_facts(4)[OF t] by (simp add: decode_def)
qed

lemma object_read_unknown_type:
  assumes t: "type_token t" and nk: "t \<notin> {''blob'', ''tree'', ''commit'', ''tag''}"
    and o: "open_object L S s = Inr (object_bytes t data)"
  shows "object_read L S s
         = Some (Inl (Exception (''Unknown type '' @ t @ '' for object '' @ s)))"
proof -
  have len: "int (length (object_bytes t data))
             - int (length t + length (SPC # str_nat (length data))) - 1 = int (length data)"
    by (simp add: object_bytes_def)
  from nk have nk': "\<not> (t = ''commit'' \<or> t = ''tree'' \<or> t = ''tag'' \<or> t = ''blob'')" by auto
  show ?thesis
    unfolding object_read_def
    by (simp only: o sum.case Let_def object_bytes_fields[OF t] py_int_leading_space
          py_int_str_nat option.case len nk' if_False) simp
qed

lemma object_read_no_object:
  assumes o: "open_object L S s = Inr raw"
    and nk: "slice raw 0 (bytes_find raw SPC 0) \<notin> {''blob'', ''tree'', ''commit'', ''tag''}"
  shows "\<exists>e. object_read L S s = Some (Inl e)"
proof -
  from nk have nk': "\<not> (slice raw 0 (bytes_find raw SPC 0) = ''commit''
      \<or> slice raw 0 (bytes_find raw SPC 0) = ''tree''
      \<or> slice raw 0 (bytes_find raw SPC 0) = ''tag''
      \<or> slice raw 0 (bytes_find raw SPC 0) = ''blob'')" by auto
  show ?thesis
    unfolding object_read_def
    by (simp only: o sum.case Let_def nk' if_False) (simp split: sum.split option.split)
qed

text \<open>
  C5. An object whose header declares a type other than the four known ones. libwyag's
  \<open>object_read\<close> never returns an object for it: whatever the decompressed bytes are, a
  tag outside the four gives an error, and for a well-formed object the error is
  \<open>Unknown type\<close> with the tag and the digest. pygit's \<open>read_object\<close> does not look at
  the type: it returns the tag with the payload.
\<close>

theorem unknown_type_tag:
  assumes "t \<notin> {''blob'', ''tree'', ''commit'', ''tag''}"
  shows "(open_object L S s = Inr raw \<and> slice raw 0 (bytes_find raw SPC 0) = t
            \<longrightarrow> (\<exists>e. object_read L S s = Some (Inl e))) \<and>
         (type_token t \<and> open_object L S s = Inr (object_bytes t data)
            \<longrightarrow> object_read L S s
                = Some (Inl (Exception (''Unknown type '' @ t @ '' for object '' @ s)))) \<and>
         (type_token t \<and> find_object S p = Inr (d, n) \<and> read_file S d n = Inr z \<and>
          zlib_decompress L z = Some (object_bytes t data)
            \<longrightarrow> read_object L S p = Inr (t, data))"
proof (intro conjI impI)
  assume "open_object L S s = Inr raw \<and> slice raw 0 (bytes_find raw SPC 0) = t"
  with assms show "\<exists>e. object_read L S s = Some (Inl e)"
    using object_read_no_object[of L S s raw] by blast
next
  assume "type_token t \<and> open_object L S s = Inr (object_bytes t data)"
  with assms show "object_read L S s
      = Some (Inl (Exception (''Unknown type '' @ t @ '' for object '' @ s)))"
    using object_read_unknown_type[of t L S s data] by blast
next
  assume a: "type_token t \<and> find_object S p = Inr (d, n) \<and> read_file S d n = Inr z \<and>
          zlib_decompress L z = Some (object_bytes t data)"
  then show "read_object L S p = Inr (t, data)"
    using read_object_of_file[of S p d n z L t data] by blast
qed

text \<open>
  An object written with the type \<open>foo\<close> is read back by \<open>read_object\<close> under that
  type, with its payload.
\<close>

theorem unknown_type_tag_counterexample:
  "hash_object example_library \<lparr>dirs = [], written = []\<rparr> ''abc'' ''foo'' True
     = (''09bd303132333435363738396162636465666768'', foo_store) \<and>
   read_object example_library foo_store ''09bd303132333435363738396162636465666768''
     = Inr (''foo'', ''abc'')"
  by (simp add: foo_store_def store_eval text_eval)

text \<open>The same object, read by both readers.\<close>

theorem unknown_type_tag_witness:
  "''foo'' \<notin> {''blob'', ''tree'', ''commit'', ''tag''} \<and> type_token ''foo'' \<and>
   open_object example_library foo_store ''09bd303132333435363738396162636465666768''
     = Inr (object_bytes ''foo'' ''abc'') \<and>
   slice (object_bytes ''foo'' ''abc'') 0 (bytes_find (object_bytes ''foo'' ''abc'') SPC 0) = ''foo'' \<and>
   find_object foo_store ''09bd'' = Inr (''09'', ''bd303132333435363738396162636465666768'') \<and>
   read_file foo_store ''09'' ''bd303132333435363738396162636465666768''
     = Inr (''zfoo 3'' @ [NUL] @ ''abc'') \<and>
   zlib_decompress example_library (''zfoo 3'' @ [NUL] @ ''abc'')
     = Some (object_bytes ''foo'' ''abc'') \<and>
   object_read example_library foo_store ''09bd303132333435363738396162636465666768''
     = Some (Inl (Exception ''Unknown type foo for object 09bd303132333435363738396162636465666768'')) \<and>
   read_object example_library foo_store ''09bd'' = Inr (''foo'', ''abc'')"
proof -
  have a: "''foo'' \<notin> {''blob'', ''tree'', ''commit'', ''tag''}" by simp
  have b: "type_token ''foo''" by (simp add: type_token_def isspace_def)
  have c: "open_object example_library foo_store ''09bd303132333435363738396162636465666768''
     = Inr (object_bytes ''foo'' ''abc'')"
    by (simp add: foo_store_def open_object_def example_library_def object_bytes_def text_eval)
  have d: "slice (object_bytes ''foo'' ''abc'') 0 (bytes_find (object_bytes ''foo'' ''abc'') SPC 0)
     = ''foo''"
    by (simp add: object_bytes_def text_eval)
  have e: "find_object foo_store ''09bd'' = Inr (''09'', ''bd303132333435363738396162636465666768'')"
    by (simp add: foo_store_def find_object_def text_eval)
  have f: "read_file foo_store ''09'' ''bd303132333435363738396162636465666768''
     = Inr (''zfoo 3'' @ [NUL] @ ''abc'')"
    by (simp add: foo_store_def read_file_def)
  have g: "zlib_decompress example_library (''zfoo 3'' @ [NUL] @ ''abc'')
     = Some (object_bytes ''foo'' ''abc'')"
    by (simp add: example_library_def object_bytes_def text_eval)
  from unknown_type_tag[where t = "''foo''" and L = example_library and S = foo_store
      and s = "''09bd303132333435363738396162636465666768''"
      and raw = "object_bytes ''foo'' ''abc''" and data = "''abc''" and p = "''09bd''"
      and d = "''09''" and n = "''bd303132333435363738396162636465666768''"
      and z = "''zfoo 3'' @ [NUL] @ ''abc''", OF a] b c d e f g
  show ?thesis by simp
qed

section \<open>Object store of pygit: finding an object by a prefix\<close>

lemma prefix_same_length:
  "length a = length d \<Longrightarrow> prefix (a @ b) (d @ n) = (a = d \<and> prefix b n)"
  by (auto simp: prefix_def)

lemma prefix_address:
  assumes "length d = 2" and "2 \<le> length p"
  shows "prefix p (d @ n) = (take 2 p = d \<and> prefix (drop 2 p) n)"
proof -
  have l: "length (take 2 p) = length d" using assms by simp
  have "prefix (take 2 p @ drop 2 p) (d @ n) = (take 2 p = d \<and> prefix (drop 2 p) n)"
    using l by (rule prefix_same_length)
  then show ?thesis by (simp only: append_take_drop_id)
qed

lemma candidates_of_directory:
  assumes "length d = 2" and "2 \<le> length p"
  shows "filter (\<lambda>(d, n). prefix p (d @ n)) (map (\<lambda>(n, z). (d, n)) fs)
         = (if take 2 p = d then map (Pair d) (filter (prefix (drop 2 p)) (map fst fs)) else [])"
proof (cases "take 2 p = d")
  case True
  have e: "\<And>n. prefix p (d @ n) = prefix (drop 2 p) n"
    using prefix_address[OF assms] True by simp
  show ?thesis unfolding if_P[OF True] by (induction fs) (simp_all add: e split: prod.split)
next
  case False
  have e: "\<And>n. \<not> prefix p (d @ n)"
    using prefix_address[OF assms] False by simp
  show ?thesis unfolding if_not_P[OF False] by (induction fs) (simp_all add: e split: prod.split)
qed

lemma candidates_of_directories:
  assumes "distinct (map fst ds)" and "list_all (\<lambda>(d, fs). length d = 2 \<and> distinct (map fst fs)) ds"
    and p: "2 \<le> length p"
  shows "filter (\<lambda>(d, n). prefix p (d @ n)) (concat (map (\<lambda>(d, fs). map (\<lambda>(n, z). (d, n)) fs) ds))
         = (case map_of ds (take 2 p) of
              None \<Rightarrow> []
            | Some fs \<Rightarrow> map (Pair (take 2 p)) (filter (prefix (drop 2 p)) (map fst fs)))"
  using assms(1,2)
proof (induction ds)
  case Nil
  show ?case by simp
next
  case (Cons x ds)
  obtain d fs where x: "x = (d, fs)" by (cases x)
  from Cons.prems x have d2: "length d = 2" and nd: "d \<notin> fst ` set ds"
    and dd: "distinct (map fst ds)"
    and la: "list_all (\<lambda>(d, fs). length d = 2 \<and> distinct (map fst fs)) ds"
    by simp_all
  note ih = Cons.IH[OF dd la]
  show ?case
  proof (cases "take 2 p = d")
    case True
    from nd True have "map_of ds (take 2 p) = None" by (simp add: map_of_eq_None_iff)
    with ih True show ?thesis
      unfolding x by (simp add: candidates_of_directory[OF d2 p])
  next
    case False
    with ih show ?thesis
      unfolding x by (auto simp add: candidates_of_directory[OF d2 p])
  qed
qed

lemma candidates_by_directory:
  assumes "store_wf S" and "2 \<le> length p"
  shows "candidates S p
         = (case map_of (dirs S) (take 2 p) of
              None \<Rightarrow> []
            | Some fs \<Rightarrow> map (Pair (take 2 p)) (filter (prefix (drop 2 p)) (map fst fs)))"
  using assms unfolding candidates_def addresses_def store_wf_def
  by (simp add: candidates_of_directories)

lemma find_object_candidates:
  assumes wf: "store_wf S" and p: "2 \<le> length p"
  shows "candidates S p = [a] \<Longrightarrow> find_object S p = Inr a"
    and "candidates S p = [] \<Longrightarrow> take 2 p \<in> fst ` set (dirs S)
         \<Longrightarrow> find_object S p = Inl (ValueError (''object '' @ p @ '' not found''))"
    and "2 \<le> length (candidates S p)
         \<Longrightarrow> find_object S p = Inl (ValueError (''multiple objects (''
               @ str_nat (length (candidates S p)) @ '') with prefix '' @ p))"
proof -
  note c = candidates_by_directory[OF wf p]
  {
    assume one: "candidates S p = [a]"
    with c obtain fs where m: "map_of (dirs S) (take 2 p) = Some fs"
      by (cases "map_of (dirs S) (take 2 p)") simp_all
    from one c m have "map (Pair (take 2 p)) (filter (prefix (drop 2 p)) (map fst fs)) = [a]"
      by simp
    then obtain n where f: "filter (prefix (drop 2 p)) (map fst fs) = [n]"
      and a: "a = (take 2 p, n)"
      by (cases "filter (prefix (drop 2 p)) (map fst fs)") auto
    from find_object_unique[OF p m f] a show "find_object S p = Inr a" by simp
  }
  {
    assume none: "candidates S p = []" and dir: "take 2 p \<in> fst ` set (dirs S)"
    from dir obtain fs where m: "map_of (dirs S) (take 2 p) = Some fs"
      by (cases "map_of (dirs S) (take 2 p)") (auto simp: map_of_eq_None_iff)
    from none c m have "filter (prefix (drop 2 p)) (map fst fs) = []" by simp
    with p m show "find_object S p = Inl (ValueError (''object '' @ p @ '' not found''))"
      by (simp add: find_object_def slice_to_take slice_from_drop Let_def)
  }
  {
    assume many: "2 \<le> length (candidates S p)"
    with c obtain fs where m: "map_of (dirs S) (take 2 p) = Some fs"
      by (cases "map_of (dirs S) (take 2 p)") simp_all
    from c m have l: "length (candidates S p) = length (filter (prefix (drop 2 p)) (map fst fs))"
      by simp
    have ne: "filter (prefix (drop 2 p)) (map fst fs) \<noteq> []"
    proof
      assume "filter (prefix (drop 2 p)) (map fst fs) = []"
      then have "length (filter (prefix (drop 2 p)) (map fst fs)) = 0" by (simp only: list.size)
      with many l show False by simp
    qed
    from p m ne many l
    show "find_object S p = Inl (ValueError (''multiple objects (''
               @ str_nat (length (candidates S p)) @ '') with prefix '' @ p))"
      by (simp add: find_object_def slice_to_take slice_from_drop Let_def
            del: filter_map length_filter_map)
  }
qed

lemma find_object_short:
  "length p < 2 \<Longrightarrow> find_object S p = Inl (ValueError ''hash prefix must be 2 or more characters'')"
  by (simp add: find_object_def)

text \<open>
  C6. Finding an object of pygit's store by a prefix of its address. A prefix shorter
  than two characters is refused. For a longer one, in a store with unique names and
  two-character directories: one candidate is found; none, in a directory that exists,
  is the error \<open>not found\<close>; two or more are the error \<open>multiple objects\<close>, which gives
  their number and the prefix. The object found is then read by \<open>read_object\<close>.
\<close>

theorem find_object_by_prefix:
  assumes "store_wf S"
  shows "(length p < 2 \<longrightarrow>
            find_object S p = Inl (ValueError ''hash prefix must be 2 or more characters'')) \<and>
         (2 \<le> length p \<and> candidates S p = [a] \<longrightarrow> find_object S p = Inr a) \<and>
         (2 \<le> length p \<and> candidates S p = [(d, n)] \<and> read_file S d n = Inr z \<and>
          zlib_decompress L z = Some (object_bytes t data) \<and> type_token t \<longrightarrow>
            read_object L S p = Inr (t, data)) \<and>
         (2 \<le> length p \<and> candidates S p = [] \<and> take 2 p \<in> fst ` set (dirs S) \<longrightarrow>
            find_object S p = Inl (ValueError (''object '' @ p @ '' not found''))) \<and>
         (2 \<le> length p \<and> 2 \<le> length (candidates S p) \<longrightarrow>
            find_object S p = Inl (ValueError (''multiple objects (''
               @ str_nat (length (candidates S p)) @ '') with prefix '' @ p)))"
proof (intro conjI impI)
  assume "length p < 2"
  then show "find_object S p = Inl (ValueError ''hash prefix must be 2 or more characters'')"
    by (rule find_object_short)
next
  assume "2 \<le> length p \<and> candidates S p = [a]"
  then show "find_object S p = Inr a" using find_object_candidates(1)[OF assms] by blast
next
  assume a: "2 \<le> length p \<and> candidates S p = [(d, n)] \<and> read_file S d n = Inr z \<and>
          zlib_decompress L z = Some (object_bytes t data) \<and> type_token t"
  then have "find_object S p = Inr (d, n)" using find_object_candidates(1)[OF assms] by blast
  with a show "read_object L S p = Inr (t, data)"
    using read_object_of_file[of S p d n z L t data] by blast
next
  assume "2 \<le> length p \<and> candidates S p = [] \<and> take 2 p \<in> fst ` set (dirs S)"
  then show "find_object S p = Inl (ValueError (''object '' @ p @ '' not found''))"
    using find_object_candidates(2)[OF assms] by blast
next
  assume "2 \<le> length p \<and> 2 \<le> length (candidates S p)"
  then show "find_object S p = Inl (ValueError (''multiple objects (''
               @ str_nat (length (candidates S p)) @ '') with prefix '' @ p))"
    using find_object_candidates(3)[OF assms] by blast
qed

text \<open>
  Two stores whose candidates for the prefix \<open>abc\<close> differ raise the same error: it
  has their number, not their names.
\<close>

theorem find_object_by_prefix_counterexample:
  "candidates prefix_store ''abc'' = [(''ab'', ''c1''), (''ab'', ''c2'')] \<and>
   candidates other_prefix_store ''abc'' = [(''ab'', ''c7''), (''ab'', ''c9'')] \<and>
   find_object prefix_store ''abc'' = Inl (ValueError ''multiple objects (2) with prefix abc'') \<and>
   find_object other_prefix_store ''abc''
     = Inl (ValueError ''multiple objects (2) with prefix abc'')"
  by (simp add: prefix_eval find_object_def text_eval)

text \<open>A store with three objects: a short prefix, and prefixes of one, no and two objects.\<close>

theorem find_object_by_prefix_witness:
  "store_wf prefix_store \<and>
   find_object prefix_store ''a'' = Inl (ValueError ''hash prefix must be 2 or more characters'') \<and>
   candidates prefix_store ''abd'' = [(''ab'', ''d3'')] \<and>
   find_object prefix_store ''abd'' = Inr (''ab'', ''d3'') \<and>
   read_object example_library prefix_store ''abd'' = Inr (''blob'', []) \<and>
   candidates prefix_store ''abe'' = [] \<and>
   find_object prefix_store ''abe'' = Inl (ValueError ''object abe not found'') \<and>
   candidates prefix_store ''abc'' = [(''ab'', ''c1''), (''ab'', ''c2'')] \<and>
   find_object prefix_store ''abc'' = Inl (ValueError ''multiple objects (2) with prefix abc'')"
proof -
  have wf: "store_wf prefix_store" by (simp add: store_wf_def prefix_store_def)
  have c1: "candidates prefix_store ''abd'' = [(''ab'', ''d3'')]" by (simp add: prefix_eval)
  have c0: "candidates prefix_store ''abe'' = []" by (simp add: prefix_eval)
  have c2: "candidates prefix_store ''abc'' = [(''ab'', ''c1''), (''ab'', ''c2'')]"
    by (simp add: prefix_eval)
  have dir: "take 2 ''abe'' \<in> fst ` set (dirs prefix_store)" by (simp add: prefix_store_def)
  have rf: "read_file prefix_store ''ab'' ''d3'' = Inr (''zblob 0'' @ [NUL])"
    by (simp add: prefix_store_def read_file_def)
  have de: "zlib_decompress example_library (''zblob 0'' @ [NUL]) = Some (object_bytes ''blob'' [])"
    by (simp add: example_library_def object_bytes_def text_eval)
  have tk: "type_token ''blob''" by (simp add: type_token_def isspace_def)
  from find_object_by_prefix[OF wf, where p = "''a''"]
  have short: "find_object prefix_store ''a''
               = Inl (ValueError ''hash prefix must be 2 or more characters'')" by simp
  from find_object_by_prefix[OF wf, where p = "''abd''" and a = "(''ab'', ''d3'')"
      and d = "''ab''" and n = "''d3''" and z = "''zblob 0'' @ [NUL]" and L = example_library
      and t = "''blob''" and data = "[]"] c1 rf de tk
  have one: "find_object prefix_store ''abd'' = Inr (''ab'', ''d3'')"
    and rd: "read_object example_library prefix_store ''abd'' = Inr (''blob'', [])" by simp_all
  from find_object_by_prefix[OF wf, where p = "''abe''"] c0 dir
  have none: "find_object prefix_store ''abe'' = Inl (ValueError ''object abe not found'')"
    by simp
  from find_object_by_prefix[OF wf, where p = "''abc''"] c2
  have many: "find_object prefix_store ''abc''
              = Inl (ValueError ''multiple objects (2) with prefix abc'')"
    by (simp add: str_nat.simps digit_char_def)
  from wf short c1 one rd c0 none c2 many show ?thesis by simp
qed

section \<open>The index: its checksum\<close>

lemma slice_trailer:
  assumes "length t = 20"
  shows "slice_to (b @ t) (- 20) = b" and "slice_from (b @ t) (- 20) = t"
  using assms by (simp_all add: slice_to_def slice_from_def clamp_index_def)

lemma example_index_digest:
  "hashlib_sha1 example_library example_index_body = [CHR 0x94, CHR 0xF3] @ ''0123456789abcdefgh''"
proof -
  have l: "length example_index_body = 148" by (simp add: example_index_body_def)
  have s: "sum_list (map of_char example_index_body) = (5107 :: nat)"
    by (simp add: example_index_body_def)
  have a: "char_of (148 :: nat) = CHR 0x94" by (simp add: char_of_def bit_iff_odd)
  have b: "char_of (5107 :: nat) = CHR 0xF3" by (simp add: char_of_def bit_iff_odd)
  show ?thesis by (simp add: example_library_def l s a b)
qed

lemma read_index_checked:
  assumes "hashlib_sha1 L (slice_to data (- 20)) = slice_from data (- 20)"
  shows "read_index L (Some data)
         = (case unpack_header (slice_to data 12) of
              Inl e \<Rightarrow> Inl e
            | Inr (signature, version, num_entries) \<Rightarrow>
                if signature \<noteq> ''DIRC''
                then Inl (AssertionError (''invalid index signature '' @ repr_bytes signature))
                else if version \<noteq> 2
                then Inl (AssertionError (''unkown index version '' @ str_nat version))
                else (case read_entries (slice data 12 (- 20)) 0 [] of
                        Inl e \<Rightarrow> Inl e
                      | Inr entries \<Rightarrow>
                          if length entries \<noteq> num_entries then Inl (AssertionError [])
                          else Inr entries))"
  using assms by (simp add: read_index_def)

lemma example_index_entries:
  "read_index example_library (Some example_index)
   = Inr [\<lparr>ctime_s = 1, ctime_n = 2, mtime_s = 3, mtime_n = 4, dev = 5, ino = 6,
           entry_mode = 33188, uid = 7, gid = 8, entry_size = 5,
           sha1 = ''abcdefghijklmnopqrst'', flags = 1, entry_path = ''a''\<rparr>,
          \<lparr>ctime_s = 1, ctime_n = 2, mtime_s = 3, mtime_n = 4, dev = 5, ino = 6,
           entry_mode = 33188, uid = 7, gid = 8, entry_size = 3,
           sha1 = ''ABCDEFGHIJKLMNOPQRST'', flags = 4, entry_path = ''gone''\<rparr>]"
proof -
  have t: "length ([CHR 0x94, CHR 0xF3] @ ''0123456789abcdefgh'') = 20" by simp
  have "hashlib_sha1 example_library (slice_to example_index (- 20))
        = slice_from example_index (- 20)"
    unfolding example_index_def slice_trailer[OF t] by (rule example_index_digest)
  then show ?thesis
    by (simp only: read_index_checked)
       (simp add: example_index_def example_index_body_def index_eval)
qed

lemma read_index_checksum:
  "read_index L (Some data) = Inr es \<Longrightarrow> hashlib_sha1 L (slice_to data (- 20)) = slice_from data (- 20)"
  by (simp add: read_index_def Let_def split: if_splits)

lemma read_index_trailer:
  assumes "read_index L (Some data) = Inr es" and "library_ok L"
  shows "20 \<le> length data"
    and "drop (length data - 20) data = hashlib_sha1 L (take (length data - 20) data)"
proof -
  from assms(1) have c: "hashlib_sha1 L (slice_to data (- 20)) = slice_from data (- 20)"
    by (rule read_index_checksum)
  from assms(2) have "length (hashlib_sha1 L (slice_to data (- 20))) = 20"
    by (simp add: library_ok_def)
  with c have "length (slice_from data (- 20)) = 20" by simp
  then show l: "20 \<le> length data" by (simp add: slice_from_def clamp_index_def)
  then have n: "nat (int (length data) - 20) = length data - 20" by simp
  from c show "drop (length data - 20) data = hashlib_sha1 L (take (length data - 20) data)"
    by (simp add: slice_from_def slice_to_def clamp_index_def n)
qed

lemma trailer_after_update:
  "i < length data - 20 \<Longrightarrow> slice_from (data[i := c]) (- 20) = slice_from data (- 20)"
  by (simp add: slice_from_def clamp_index_def)

lemma read_index_modified:
  assumes ok: "read_index L (Some data) = Inr es" and i: "i < length data - 20"
    and h: "hashlib_sha1 L (slice_to (data[i := c]) (- 20)) \<noteq> hashlib_sha1 L (slice_to data (- 20))"
  shows "read_index L (Some (data[i := c])) = Inl (AssertionError ''invalid index checksum'')"
proof -
  from ok have "hashlib_sha1 L (slice_to data (- 20)) = slice_from data (- 20)"
    by (rule read_index_checksum)
  with h have "hashlib_sha1 L (slice_to (data[i := c]) (- 20)) \<noteq> slice_from (data[i := c]) (- 20)"
    by (simp add: trailer_after_update[OF i])
  then show ?thesis by (simp add: read_index_def)
qed

text \<open>
  C8. The checksum of the index. \<open>read_index\<close> returns entries only if the hash of
  \<open>data[:-20]\<close> is \<open>data[-20:]\<close>; with a hash of 20 bytes these are the last 20 bytes and
  all the bytes before them. After a change of one byte before the trailing digest, at a
  position of the header or of the entry region, an index that was read is refused with
  \<open>invalid index checksum\<close>, provided that the hash tells the changed bytes from the
  original ones.
\<close>

theorem index_checksum:
  "(read_index L (Some data) = Inr es \<longrightarrow>
      hashlib_sha1 L (slice_to data (- 20)) = slice_from data (- 20)) \<and>
   (read_index L (Some data) = Inr es \<and> library_ok L \<longrightarrow>
      20 \<le> length data \<and>
      drop (length data - 20) data = hashlib_sha1 L (take (length data - 20) data)) \<and>
   (read_index L (Some data) = Inr es \<and> i < length data - 20 \<and>
    hashlib_sha1 L (slice_to (data[i := c]) (- 20)) \<noteq> hashlib_sha1 L (slice_to data (- 20)) \<longrightarrow>
      read_index L (Some (data[i := c])) = Inl (AssertionError ''invalid index checksum''))"
  using read_index_checksum read_index_trailer read_index_modified by blast

text \<open>
  The index of the examples is read; with the byte \<open>a\<close> of its first path changed to
  \<open>b\<close> it is refused.
\<close>

theorem index_checksum_witness:
  "read_index example_library (Some example_index)
   = Inr [\<lparr>ctime_s = 1, ctime_n = 2, mtime_s = 3, mtime_n = 4, dev = 5, ino = 6,
           entry_mode = 33188, uid = 7, gid = 8, entry_size = 5,
           sha1 = ''abcdefghijklmnopqrst'', flags = 1, entry_path = ''a''\<rparr>,
          \<lparr>ctime_s = 1, ctime_n = 2, mtime_s = 3, mtime_n = 4, dev = 5, ino = 6,
           entry_mode = 33188, uid = 7, gid = 8, entry_size = 3,
           sha1 = ''ABCDEFGHIJKLMNOPQRST'', flags = 4, entry_path = ''gone''\<rparr>] \<and>
   library_ok example_library \<and> 74 < length example_index - 20 \<and>
   example_index ! 74 = CHR ''a'' \<and>
   hashlib_sha1 example_library (slice_to (example_index[74 := CHR ''b'']) (- 20))
     \<noteq> hashlib_sha1 example_library (slice_to example_index (- 20)) \<and>
   hashlib_sha1 example_library (slice_to example_index (- 20)) = slice_from example_index (- 20) \<and>
   20 \<le> length example_index \<and>
   drop (length example_index - 20) example_index
     = hashlib_sha1 example_library (take (length example_index - 20) example_index) \<and>
   read_index example_library (Some (example_index[74 := CHR ''b'']))
     = Inl (AssertionError ''invalid index checksum'')"
proof -
  have t: "length ([CHR 0x94, CHR 0xF3] @ ''0123456789abcdefgh'') = 20" by simp
  have l: "length example_index_body = 148" by (simp add: example_index_body_def)
  have i: "74 < length example_index - 20" by (simp add: example_index_def l)
  have a: "example_index ! 74 = CHR ''a''"
    by (simp add: example_index_def example_index_body_def)
  have u: "example_index[74 := CHR ''b''] = example_index_body[74 := CHR ''b''] @ ([CHR 0x94, CHR 0xF3] @ ''0123456789abcdefgh'')"
    unfolding example_index_def using l by (simp add: list_update_append)
  have s1: "sum_list (map of_char (example_index_body[74 := CHR ''b''])) = (5108 :: nat)"
    by (simp add: example_index_body_def)
  have b: "char_of (5108 :: nat) = CHR 0xF4" by (simp add: char_of_def bit_iff_odd)
  have h1: "hashlib_sha1 example_library (example_index_body[74 := CHR ''b''])
            = [char_of (148 :: nat), CHR 0xF4] @ ''0123456789abcdefgh''"
    by (simp add: example_library_def l s1 b)
  have h: "hashlib_sha1 example_library (slice_to (example_index[74 := CHR ''b'']) (- 20))
     \<noteq> hashlib_sha1 example_library (slice_to example_index (- 20))"
    unfolding u slice_trailer[OF t] h1
    unfolding example_index_def slice_trailer[OF t] example_index_digest by simp
  from index_checksum[of example_library example_index _ 74 "CHR ''b''"]
    example_index_entries example_library_ok i a h
  show ?thesis by simp
qed

section \<open>The status of the working tree\<close>








lemma file_at_nonempty: "file_at n cs \<Longrightarrow> cs \<noteq> []"
  by (induction rule: file_at.induct) simp_all






end
